theory Spec2Isabelle
  imports Complex_Main "HOL-Library.AList"
begin

section \<open>Library values used by Model.py\<close>

subsection \<open>Strings: \<open>str.upper\<close> and \<open>str.lower\<close>\<close>

text \<open>
  Plates, types and tiers are Python strings. The model's characters are bytes, and
  \<open>upper\<close>/\<open>lower\<close> change the case of the ASCII letters only, which is what
  Python does on ASCII text.
\<close>

definition upper_char :: "char \<Rightarrow> char" where
  "upper_char c =
     (let n = (of_char c :: nat) in if 97 \<le> n \<and> n \<le> 122 then char_of (n - 32) else c)"

definition lower_char :: "char \<Rightarrow> char" where
  "lower_char c =
     (let n = (of_char c :: nat) in if 65 \<le> n \<and> n \<le> 90 then char_of (n + 32) else c)"

definition upper :: "string \<Rightarrow> string" where
  "upper s = map upper_char s"

definition lower :: "string \<Rightarrow> string" where
  "lower s = map lower_char s"

subsection \<open>Floats\<close>

text \<open>
  A Python float is modelled by the exact rational it stands for: the rounding of
  floating-point arithmetic is not modelled.
\<close>

type_synonym float = rat

subsection \<open>\<open>datetime\<close> and \<open>timedelta\<close>\<close>

text \<open>
  A naive \<open>datetime\<close> is its seven fields. A \<open>timedelta\<close> is its normalised
  value in microseconds. The difference of two datetimes follows the library:
  the difference of the proleptic Gregorian ordinals, of the seconds in the day and of
  the microseconds.
\<close>

record datetime =
  year :: int
  month :: int
  day :: int
  hour :: int
  minute :: int
  second :: int
  microsecond :: int

type_synonym timedelta = int

definition is_leap :: "int \<Rightarrow> bool" where
  "is_leap y = (y mod 4 = 0 \<and> (y mod 100 \<noteq> 0 \<or> y mod 400 = 0))"

definition days_before_year :: "int \<Rightarrow> int" where
  "days_before_year y = (y - 1) * 365 + (y - 1) div 4 - (y - 1) div 100 + (y - 1) div 400"

definition days_in_month :: "int \<Rightarrow> int \<Rightarrow> int" where
  "days_in_month y m =
     (if m = 2 then (if is_leap y then 29 else 28)
      else if m = 4 \<or> m = 6 \<or> m = 9 \<or> m = 11 then 30 else 31)"

definition days_before_month :: "int \<Rightarrow> int \<Rightarrow> int" where
  "days_before_month y m =
     ([0, 31, 59, 90, 120, 151, 181, 212, 243, 273, 304, 334] ! nat (m - 1))
       + (if m > 2 \<and> is_leap y then 1 else 0)"

definition toordinal :: "datetime \<Rightarrow> int" where
  "toordinal d = days_before_year (year d) + days_before_month (year d) (month d) + day d"

definition datetime_sub :: "datetime \<Rightarrow> datetime \<Rightarrow> timedelta" where
  "datetime_sub a b =
     (let days = toordinal a - toordinal b;
          secs = (second a + minute a * 60 + hour a * 3600)
                  - (second b + minute b * 60 + hour b * 3600);
          us = microsecond a - microsecond b
      in (days * 86400 + secs) * 1000000 + us)"

definition total_seconds :: "timedelta \<Rightarrow> float" where
  "total_seconds td = of_int td / 1000000"

definition timedelta_hours :: "int \<Rightarrow> timedelta" where
  "timedelta_hours h = h * 3600 * 1000000"

text \<open>
  The format \<open>%Y-%m-%d %H:%M:%S\<close>. \<open>strftime\<close> writes the fields with leading
  zeros (four digits for the year, two for the others). \<open>strptime\<close> reads the
  strings of exactly that shape, the ones the program writes, and gives \<open>None\<close>
  (Python raises ValueError) on a date or time out of range and on every other string.
  The library also accepts a few other spellings of a time (a field without its leading
  zero, other white space between date and time); they are not modelled.
\<close>

definition digit_char :: "int \<Rightarrow> char" where
  "digit_char d = char_of (48 + d mod 10)"

definition pad2 :: "int \<Rightarrow> string" where
  "pad2 n = [digit_char (n div 10), digit_char n]"

definition pad4 :: "int \<Rightarrow> string" where
  "pad4 n = [digit_char (n div 1000), digit_char (n div 100), digit_char (n div 10), digit_char n]"

definition strftime :: "datetime \<Rightarrow> string" where
  "strftime d =
     pad4 (year d) @ ''-'' @ pad2 (month d) @ ''-'' @ pad2 (day d) @ '' '' @
     pad2 (hour d) @ '':'' @ pad2 (minute d) @ '':'' @ pad2 (second d)"

definition digit_val :: "char \<Rightarrow> int option" where
  "digit_val c = (let n = (of_char c :: int) in if 48 \<le> n \<and> n \<le> 57 then Some (n - 48) else None)"

fun number_acc :: "int \<Rightarrow> string \<Rightarrow> int option" where
  "number_acc acc [] = Some acc"
| "number_acc acc (c # cs) =
     (case digit_val c of None \<Rightarrow> None | Some d \<Rightarrow> number_acc (acc * 10 + d) cs)"

definition number :: "string \<Rightarrow> int option" where
  "number s = number_acc 0 s"

definition valid_datetime :: "datetime \<Rightarrow> bool" where
  "valid_datetime d =
     (1 \<le> year d \<and> year d \<le> 9999 \<and> 1 \<le> month d \<and> month d \<le> 12 \<and>
      1 \<le> day d \<and> day d \<le> days_in_month (year d) (month d) \<and>
      0 \<le> hour d \<and> hour d \<le> 23 \<and> 0 \<le> minute d \<and> minute d \<le> 59 \<and>
      0 \<le> second d \<and> second d \<le> 59 \<and> 0 \<le> microsecond d \<and> microsecond d \<le> 999999)"

definition strptime :: "string \<Rightarrow> datetime option" where
  "strptime s =
     (if length s \<noteq> 19 then None
      else if [s ! 4, s ! 7, s ! 10, s ! 13, s ! 16] \<noteq> ''-- ::'' then None
      else
        (case (number (take 4 s), number (take 2 (drop 5 s)), number (take 2 (drop 8 s)),
               number (take 2 (drop 11 s)), number (take 2 (drop 14 s)),
               number (take 2 (drop 17 s))) of
           (Some y, Some mo, Some d, Some h, Some mi, Some sec) \<Rightarrow>
             (let t = \<lparr>year = y, month = mo, day = d, hour = h, minute = mi, second = sec,
                       microsecond = 0\<rparr>
              in if valid_datetime t then Some t else None)
         | _ \<Rightarrow> None))"

subsection \<open>JSON values\<close>

text \<open>
  The values \<open>json.dump\<close> writes and \<open>json.load\<close> reads back: a Python dict is
  a \<open>JObj\<close> (keys in insertion order), a list a \<open>JArr\<close>, \<open>None\<close> is
  \<open>JNull\<close>. The data file is modelled by the value it holds; writing a value and
  reading it back is the identity on these values.
\<close>

datatype json =
    JNull
  | JBool bool
  | JInt int
  | JFloat float
  | JStr string
  | JArr "json list"
  | JObj "(string \<times> json) list"

text \<open>\<open>d.get(k)\<close> on a value that may not be a dict: \<open>None\<close> when there is
  no such key (or no dict).\<close>

fun dict_get :: "json \<Rightarrow> string \<Rightarrow> json option" where
  "dict_get (JObj kv) k = map_of kv k"
| "dict_get _ k = None"

text \<open>Python's truth value of a loaded value.\<close>

fun truthy :: "json \<Rightarrow> bool" where
  "truthy JNull = False"
| "truthy (JBool b) = b"
| "truthy (JInt n) = (n \<noteq> 0)"
| "truthy (JFloat f) = (f \<noteq> 0)"
| "truthy (JStr s) = (s \<noteq> [])"
| "truthy (JArr xs) = (xs \<noteq> [])"
| "truthy (JObj kv) = (kv \<noteq> [])"

section \<open>The data model of Model.py\<close>

subsection \<open>Dictionaries\<close>

text \<open>
  A dict with string keys is an association list in insertion order; \<open>get\<close> is
  \<open>d.get(k, default)\<close>, and \<open>d[k] = v\<close> is \<open>AList.update k v d\<close>, which
  replaces the value of an existing key in place and appends a new key at the end.
\<close>

definition get :: "('k \<times> 'v) list \<Rightarrow> 'k \<Rightarrow> 'v \<Rightarrow> 'v" where
  "get d k dflt = (case map_of d k of None \<Rightarrow> dflt | Some v \<Rightarrow> v)"

datatype error = KeyError | AttributeError | TypeError | ValueError

text \<open>\<open>r[k]\<close> on a loaded value, and \<open>x.upper()\<close> on the result.\<close>

fun subscript :: "json \<Rightarrow> string \<Rightarrow> error + json" where
  "subscript (JObj kv) k = (case map_of kv k of None \<Rightarrow> Inl KeyError | Some x \<Rightarrow> Inr x)"
| "subscript _ k = Inl TypeError"

fun json_upper :: "json \<Rightarrow> error + string" where
  "json_upper (JStr s) = Inr (upper s)"
| "json_upper _ = Inl AttributeError"

subsection \<open>class Vehiculo\<close>

record Vehiculo =
  placa :: string
  tipo :: string
  hora_entrada :: string
  cliente :: string
  visitas :: int
  lat :: "float option"
  lon :: "float option"

text \<open>
  \<open>Vehiculo.__init__\<close>. The first argument is the clock, read when no entry time
  is given (\<open>None\<close> or the empty string). A vehicle is a value here: every entry
  registers an object of its own, as the menu does, and the list of active vehicles
  holds values, not references.
\<close>

definition Vehiculo_init ::
  "datetime \<Rightarrow> string \<Rightarrow> string \<Rightarrow> string option \<Rightarrow> string \<Rightarrow> int \<Rightarrow>
   float option \<Rightarrow> float option \<Rightarrow> Vehiculo" where
  "Vehiculo_init now p t h c n la lo =
     \<lparr>placa = upper p,
      tipo = lower t,
      hora_entrada = (case h of None \<Rightarrow> strftime now
                      | Some s \<Rightarrow> if s \<noteq> [] then s else strftime now),
      cliente = lower c,
      visitas = n,
      lat = la,
      lon = lo\<rparr>"

definition json_of_coord :: "float option \<Rightarrow> json" where
  "json_of_coord x = (case x of None \<Rightarrow> JNull | Some f \<Rightarrow> JFloat f)"

definition to_dict :: "Vehiculo \<Rightarrow> json" where
  "to_dict v = JObj
     [(''placa'', JStr (placa v)),
      (''tipo'', JStr (tipo v)),
      (''hora_entrada'', JStr (hora_entrada v)),
      (''cliente'', JStr (cliente v)),
      (''visitas'', JInt (visitas v)),
      (''lat'', json_of_coord (lat v)),
      (''lon'', json_of_coord (lon v))]"

text \<open>
  The arguments \<open>from_dict\<close> passes to the constructor, read from loaded values.
  The record is typed where Python is not: a value of a type that \<open>to_dict\<close> never
  writes in that field (a number for the plate, a string for the visits) has no
  counterpart in the record, and reading it gives \<open>None\<close>, as an exception of the
  constructor does.
\<close>

fun str_arg :: "json \<Rightarrow> string option" where
  "str_arg (JStr s) = Some s"
| "str_arg _ = None"

fun hora_arg :: "json \<Rightarrow> string option option" where
  "hora_arg (JStr s) = Some (Some s)"
| "hora_arg j = (if truthy j then None else Some None)"

fun int_arg :: "json \<Rightarrow> int option" where
  "int_arg (JInt n) = Some n"
| "int_arg _ = None"

fun coord_arg :: "json \<Rightarrow> float option option" where
  "coord_arg JNull = Some None"
| "coord_arg (JFloat f) = Some (Some f)"
| "coord_arg (JInt n) = Some (Some (of_int n))"
| "coord_arg _ = None"

definition from_dict :: "datetime \<Rightarrow> json \<Rightarrow> Vehiculo option" where
  "from_dict now d =
     (case d of
        JObj kv \<Rightarrow>
          (case (str_arg (get kv ''placa'' (JStr [])),
                 str_arg (get kv ''tipo'' (JStr [])),
                 hora_arg (get kv ''hora_entrada'' JNull),
                 str_arg (get kv ''cliente'' (JStr ''normal'')),
                 int_arg (get kv ''visitas'' (JInt 0)),
                 coord_arg (get kv ''lat'' JNull),
                 coord_arg (get kv ''lon'' JNull)) of
             (Some p, Some t, Some h, Some c, Some n, Some la, Some lo) \<Rightarrow>
               Some (Vehiculo_init now p t h c n la lo)
           | _ \<Rightarrow> None)
      | _ \<Rightarrow> None)"

subsection \<open>class Parqueadero\<close>

text \<open>
  The state of a \<open>Parqueadero\<close>: its attributes, and under \<open>archivo_json\<close> the
  content of the data file at that path (\<open>None\<close> when the file does not exist).
  A history record is the dict \<open>registrar_salida\<close> builds, kept as the JSON value.
\<close>

record Parqueadero =
  cupos :: "(string \<times> int) list"
  archivo_json :: "json option"
  vehiculos :: "Vehiculo list"
  historial :: "json list"
  operador_actual :: "string option"

definition tarifas :: "(string \<times> int) list" where
  "tarifas = [(''carro'', 2000), (''moto'', 1000), (''bici'', 500)]"

text \<open>
  The messages the methods return. Each constructor stands for one text of the source:
  \<open>SinCupos\<close> for the rejection "No hay cupos disponibles ...",
  \<open>QuedaUnCupo t\<close> for "Alerta: queda 1 cupo para {t}s.",
  \<open>ClienteFrecuente\<close> for "Cliente frecuente: descuento 10% en salida.",
  \<open>Mas24Horas p\<close> for the message that plate p has been parked for more than 24 hours,
  \<open>SoloQuedaUnCupo t\<close> for "Solo queda 1 cupo para {t}s.".
\<close>

datatype mensaje =
    SinCupos
  | QuedaUnCupo string
  | ClienteFrecuente
  | Mas24Horas string
  | SoloQuedaUnCupo string

subsection \<open>Persistence\<close>

definition payload :: "Parqueadero \<Rightarrow> json" where
  "payload st = JObj
     [(''cupos'', JObj (map (\<lambda>(k, c). (k, JInt c)) (cupos st))),
      (''vehiculos'', JArr (map to_dict (vehiculos st))),
      (''historial'', JArr (historial st))]"

definition guardar_datos :: "Parqueadero \<Rightarrow> Parqueadero" where
  "guardar_datos st = st\<lparr>archivo_json := Some (payload st)\<rparr>"

fun int_items :: "(string \<times> json) list \<Rightarrow> (string \<times> int) list option" where
  "int_items [] = Some []"
| "int_items ((k, JInt n) # rest) = map_option ((#) (k, n)) (int_items rest)"
| "int_items _ = None"

text \<open>
  \<open>cargar_datos\<close>: nothing happens without a file; any exception is caught, and the
  attributes assigned before it keep their new values. The three attributes are typed
  here: a loaded value of another type than \<open>guardar_datos\<close> writes (capacities that
  are not a dict of integers, a history that is not a list) has no counterpart in the
  state, and the model stops there as at an exception. The clock, which the constructor
  reads for a vehicle without an entry time, is one time for the call.
\<close>

definition cargar_cupos ::
  "(string \<times> json) list \<Rightarrow> (string \<times> int) list \<Rightarrow> (string \<times> int) list option" where
  "cargar_cupos data actual =
     (case map_of data ''cupos'' of
        None \<Rightarrow> Some actual
      | Some (JObj kv) \<Rightarrow> int_items kv
      | Some _ \<Rightarrow> None)"

definition cargar_vehiculos :: "datetime \<Rightarrow> (string \<times> json) list \<Rightarrow> Vehiculo list option" where
  "cargar_vehiculos now data =
     (case get data ''vehiculos'' (JArr []) of
        JArr ds \<Rightarrow> those (map (from_dict now) ds)
      | JObj kv \<Rightarrow> (if kv = [] then Some [] else None)
      | JStr s \<Rightarrow> (if s = [] then Some [] else None)
      | _ \<Rightarrow> None)"

definition cargar_datos :: "datetime \<Rightarrow> Parqueadero \<Rightarrow> Parqueadero" where
  "cargar_datos now st =
     (case archivo_json st of
        None \<Rightarrow> st
      | Some (JObj data) \<Rightarrow>
          (case cargar_cupos data (cupos st) of
             None \<Rightarrow> st
           | Some cs \<Rightarrow>
               (let st1 = st\<lparr>cupos := cs\<rparr> in
                case cargar_vehiculos now data of
                  None \<Rightarrow> st1
                | Some vs \<Rightarrow>
                    (case get data ''historial'' (JArr []) of
                       JArr h \<Rightarrow> st1\<lparr>vehiculos := vs, historial := h\<rparr>
                     | _ \<Rightarrow> st1)))
      | Some _ \<Rightarrow> st)"

text \<open>\<open>Parqueadero.__init__\<close>: the configured capacities, then the data file if any.\<close>

definition Parqueadero_init ::
  "datetime \<Rightarrow> (string \<times> int) list \<Rightarrow> json option \<Rightarrow> Parqueadero" where
  "Parqueadero_init now cfg file =
     cargar_datos now
       \<lparr>cupos = cfg, archivo_json = file, vehiculos = [], historial = [],
        operador_actual = None\<rparr>"

definition login :: "string \<Rightarrow> Parqueadero \<Rightarrow> Parqueadero" where
  "login operador_name st = st\<lparr>operador_actual := Some operador_name\<rparr>"

section \<open>Entries and exits\<close>

text \<open>
  A method is a function from the state to a result and the new state. An exception
  is \<open>Inl\<close>: every exception of these methods is raised before the first assignment,
  so the state after it is the state before the call.
\<close>

text \<open>
  \<open>sum(1 for r in self.historial if r["placa"].upper() == veh.placa.upper())\<close>:
  the records are visited in order, and the first one without a string under
  \<open>"placa"\<close> raises.
\<close>

fun visitas_previas :: "string \<Rightarrow> json list \<Rightarrow> error + int" where
  "visitas_previas p [] = Inr 0"
| "visitas_previas p (r # rs) =
     (case subscript r ''placa'' of
        Inl e \<Rightarrow> Inl e
      | Inr x \<Rightarrow>
          (case json_upper x of
             Inl e \<Rightarrow> Inl e
           | Inr q \<Rightarrow>
               (case visitas_previas p rs of
                  Inl e \<Rightarrow> Inl e
                | Inr n \<Rightarrow> Inr ((if q = upper p then 1 else 0) + n))))"

definition registrar_entrada ::
  "Vehiculo \<Rightarrow> Parqueadero \<Rightarrow> error + ((bool \<times> mensaje list) \<times> Parqueadero)" where
  "registrar_entrada veh st =
     (let tipo' = tipo veh;
          available = get (cupos st) tipo' 0
      in if available \<le> 0 then Inr ((False, [SinCupos]), st)
         else
           (case visitas_previas (placa veh) (historial st) of
              Inl e \<Rightarrow> Inl e
            | Inr previas \<Rightarrow>
                (let veh1 = veh\<lparr>visitas := previas + 1\<rparr>;
                     veh2 = (if visitas veh1 \<ge> 5 then veh1\<lparr>cliente := ''frecuente''\<rparr> else veh1);
                     st1 = st\<lparr>vehiculos := vehiculos st @ [veh2]\<rparr>;
                     st2 = st1\<lparr>cupos := AList.update tipo' (available - 1) (cupos st1)\<rparr>;
                     st3 = guardar_datos st2;
                     alerts1 = (if map_of (cupos st3) tipo' = Some 1 then [QuedaUnCupo tipo'] else []);
                     alerts2 = (if cliente veh2 = ''frecuente'' then alerts1 @ [ClienteFrecuente]
                                else alerts1)
                 in Inr ((True, alerts2), st3))))"

text \<open>
  The body of the loop of \<open>registrar_salida\<close> for the vehicle found: the hours, the
  total and the history record.
\<close>

definition horas_de :: "float \<Rightarrow> int" where
  "horas_de segundos = max 1 \<lfloor>segundos / 3600\<rfloor>"

definition total_de :: "int \<Rightarrow> string \<Rightarrow> string \<Rightarrow> float" where
  "total_de horas tipo' cliente' =
     (let tarifa = get tarifas tipo' 1000;
          total = horas * tarifa
      in if cliente' = ''frecuente'' then of_int total * (9 / 10)
         else if cliente' = ''mensual'' then 0
         else of_int total)"

definition json_of_operador :: "string option \<Rightarrow> json" where
  "json_of_operador x = (case x of None \<Rightarrow> JNull | Some s \<Rightarrow> JStr s)"

definition registro_de :: "datetime \<Rightarrow> datetime \<Rightarrow> string option \<Rightarrow> Vehiculo \<Rightarrow> json" where
  "registro_de hora_salida entrada operador v =
     (let segundos = total_seconds (datetime_sub hora_salida entrada);
          horas = horas_de segundos;
          total = total_de horas (tipo v) (cliente v)
      in JObj
           [(''placa'', JStr (placa v)),
            (''tipo'', JStr (tipo v)),
            (''cliente'', JStr (cliente v)),
            (''hora_entrada'', JStr (hora_entrada v)),
            (''hora_salida'', JStr (strftime hora_salida)),
            (''horas'', JInt horas),
            (''total'', JFloat total),
            (''operador'', json_of_operador operador),
            (''lat'', json_of_coord (lat v)),
            (''lon'', json_of_coord (lon v))])"

text \<open>
  The loop over a copy of the list: the first vehicle with the plate is the one that
  leaves, and \<open>self.vehiculos.remove(v)\<close> takes the first element equal to it out
  of the list.
\<close>

fun salida_loop ::
  "datetime \<Rightarrow> string \<Rightarrow> Vehiculo list \<Rightarrow> Parqueadero \<Rightarrow> error + (json option \<times> Parqueadero)" where
  "salida_loop now p [] st = Inr (None, st)"
| "salida_loop now p (v # vs) st =
     (if placa v = p then
        (case strptime (hora_entrada v) of
           None \<Rightarrow> Inl ValueError
         | Some entrada \<Rightarrow>
             (let registro = registro_de now entrada (operador_actual st) v;
                  st1 = st\<lparr>vehiculos := remove1 v (vehiculos st)\<rparr>;
                  st2 = st1\<lparr>cupos := AList.update (tipo v) (get (cupos st1) (tipo v) 0 + 1) (cupos st1)\<rparr>;
                  st3 = st2\<lparr>historial := historial st2 @ [registro]\<rparr>
              in Inr (Some registro, guardar_datos st3)))
      else salida_loop now p vs st)"

definition registrar_salida ::
  "datetime \<Rightarrow> string \<Rightarrow> Parqueadero \<Rightarrow> error + (json option \<times> Parqueadero)" where
  "registrar_salida now p st = salida_loop now (upper p) (vehiculos st) st"

subsection \<open>Alerts\<close>

text \<open>
  The two loops of \<open>alertas\<close>, with the list of alerts as accumulator. The source
  reads the clock at every vehicle; the readings of one call are one time here.
\<close>

fun alertas_vehiculos :: "datetime \<Rightarrow> Vehiculo list \<Rightarrow> mensaje list \<Rightarrow> error + mensaje list" where
  "alertas_vehiculos now [] alerts = Inr alerts"
| "alertas_vehiculos now (v # vs) alerts =
     (case strptime (hora_entrada v) of
        None \<Rightarrow> Inl ValueError
      | Some entrada \<Rightarrow>
          alertas_vehiculos now vs
            (if datetime_sub now entrada > timedelta_hours 24
             then alerts @ [Mas24Horas (placa v)] else alerts))"

fun alertas_cupos :: "(string \<times> int) list \<Rightarrow> mensaje list \<Rightarrow> mensaje list" where
  "alertas_cupos [] alerts = alerts"
| "alertas_cupos ((tipo', cupo) # rest) alerts =
     alertas_cupos rest (if cupo = 1 then alerts @ [SoloQuedaUnCupo tipo'] else alerts)"

definition alertas :: "datetime \<Rightarrow> Parqueadero \<Rightarrow> error + (mensaje list \<times> Parqueadero)" where
  "alertas now st =
     (case alertas_vehiculos now (vehiculos st) [] of
        Inl e \<Rightarrow> Inl e
      | Inr alerts \<Rightarrow> Inr (alertas_cupos (cupos st) alerts, st))"

subsection \<open>Reachable states\<close>

text \<open>
  The states a ledger goes through from a first state: any number of logins, entries
  and exits, each from the state the one before left. A call that raises leaves no new
  state.
\<close>

inductive reachable :: "Parqueadero \<Rightarrow> Parqueadero \<Rightarrow> bool" for st0 :: Parqueadero where
  reach_init: "reachable st0 st0"
| reach_login: "reachable st0 st \<Longrightarrow> reachable st0 (login operador_name st)"
| reach_entrada:
    "reachable st0 st \<Longrightarrow> registrar_entrada veh st = Inr (r, st') \<Longrightarrow> reachable st0 st'"
| reach_salida:
    "reachable st0 st \<Longrightarrow> registrar_salida now p st = Inr (r, st') \<Longrightarrow> reachable st0 st'"

section \<open>Notions used in the statements\<close>

text \<open>The number of active sessions of a type.\<close>

definition activos :: "string \<Rightarrow> Parqueadero \<Rightarrow> int" where
  "activos t st = int (length (filter (\<lambda>v. tipo v = t) (vehiculos st)))"

text \<open>
  The state after the exit of the vehicle \<open>v\<close> whose entry time reads \<open>e\<close>:
  the three assignments of the loop body and the write of the data file.
\<close>

definition salida_de :: "datetime \<Rightarrow> datetime \<Rightarrow> Vehiculo \<Rightarrow> Parqueadero \<Rightarrow> Parqueadero" where
  "salida_de now e v st =
     guardar_datos
       (st\<lparr>vehiculos := remove1 v (vehiculos st),
           cupos := AList.update (tipo v) (get (cupos st) (tipo v) 0 + 1) (cupos st),
           historial := historial st @ [registro_de now e (operador_actual st) v]\<rparr>)"

text \<open>A history record whose plate is the plate \<open>p\<close>, whatever the case of the letters.\<close>

definition misma_placa :: "string \<Rightarrow> json \<Rightarrow> bool" where
  "misma_placa p r =
     (case dict_get r ''placa'' of Some (JStr q) \<Rightarrow> upper q = upper p | _ \<Rightarrow> False)"

text \<open>
  What the constructor makes of its arguments: an upper-case plate, a lower-case type
  and tier, an entry time that is not empty.
\<close>

definition vehiculo_ok :: "Vehiculo \<Rightarrow> bool" where
  "vehiculo_ok v =
     (upper (placa v) = placa v \<and> lower (tipo v) = tipo v \<and> lower (cliente v) = cliente v \<and>
      hora_entrada v \<noteq> [])"

text \<open>A session whose time since entry is more than 24 hours at the clock \<open>now\<close>.\<close>

definition mas_de_24_horas :: "datetime \<Rightarrow> Vehiculo \<Rightarrow> bool" where
  "mas_de_24_horas now v =
     (case strptime (hora_entrada v) of
        None \<Rightarrow> False
      | Some entrada \<Rightarrow> datetime_sub now entrada > timedelta_hours 24)"

text \<open>
  A call of the menu and the state it leaves; a call that raises leaves the state as
  it was.
\<close>

datatype operacion = Login string | Entrada Vehiculo | Salida datetime string

fun ejecutar :: "operacion \<Rightarrow> Parqueadero \<Rightarrow> Parqueadero" where
  "ejecutar (Login n) st = login n st"
| "ejecutar (Entrada veh) st =
     (case registrar_entrada veh st of Inl e \<Rightarrow> st | Inr (r, st') \<Rightarrow> st')"
| "ejecutar (Salida now p) st =
     (case registrar_salida now p st of Inl e \<Rightarrow> st | Inr (r, st') \<Rightarrow> st')"

text \<open>
  The states reached when no entry is registered for a plate that is already among the
  active sessions.
\<close>

inductive reachable_nuevas :: "Parqueadero \<Rightarrow> Parqueadero \<Rightarrow> bool" for st0 :: Parqueadero where
  nuevas_init: "reachable_nuevas st0 st0"
| nuevas_login: "reachable_nuevas st0 st \<Longrightarrow> reachable_nuevas st0 (login operador_name st)"
| nuevas_entrada:
    "reachable_nuevas st0 st \<Longrightarrow> placa veh \<notin> set (map placa (vehiculos st)) \<Longrightarrow>
     registrar_entrada veh st = Inr (r, st') \<Longrightarrow> reachable_nuevas st0 st'"
| nuevas_salida:
    "reachable_nuevas st0 st \<Longrightarrow> registrar_salida now p st = Inr (r, st') \<Longrightarrow>
     reachable_nuevas st0 st'"

subsection \<open>Example values\<close>

definition ejemplo_t0 :: datetime where
  "ejemplo_t0 = \<lparr>year = 2024, month = 3, day = 1, hour = 10, minute = 0, second = 0,
                 microsecond = 0\<rparr>"

definition ejemplo_10_min :: datetime where
  "ejemplo_10_min = ejemplo_t0\<lparr>minute := 10\<rparr>"

definition ejemplo_125_min :: datetime where
  "ejemplo_125_min = ejemplo_t0\<lparr>hour := 12, minute := 5\<rparr>"

definition ejemplo_3_horas :: datetime where
  "ejemplo_3_horas = ejemplo_t0\<lparr>hour := 13, minute := 20, second := 15, microsecond := 250000\<rparr>"

definition ejemplo_dia_siguiente :: datetime where
  "ejemplo_dia_siguiente = ejemplo_t0\<lparr>day := 2, second := 1\<rparr>"

definition ejemplo_cfg :: "(string \<times> int) list" where
  "ejemplo_cfg = [(''carro'', 2), (''moto'', 1), (''bici'', 0)]"

definition ejemplo_inicial :: Parqueadero where
  "ejemplo_inicial = Parqueadero_init ejemplo_t0 ejemplo_cfg None"

definition ejemplo_carro :: Vehiculo where
  "ejemplo_carro =
     Vehiculo_init ejemplo_t0 ''abc123'' ''Carro'' None ''normal'' 0 (Some (313 / 50)) (Some (- 7557 / 100))"

definition ejemplo_carro_2 :: Vehiculo where
  "ejemplo_carro_2 =
     Vehiculo_init ejemplo_10_min ''ABC123'' ''carro'' None ''normal'' 0 None None"

definition ejemplo_moto :: Vehiculo where
  "ejemplo_moto = Vehiculo_init ejemplo_t0 ''xyz99'' ''moto'' None ''Frecuente'' 0 None None"

definition ejemplo_bici :: Vehiculo where
  "ejemplo_bici = Vehiculo_init ejemplo_t0 ''b1'' ''bici'' None ''normal'' 0 None None"

definition ejemplo_mensual :: Vehiculo where
  "ejemplo_mensual = Vehiculo_init ejemplo_125_min ''abc123'' ''carro'' None ''mensual'' 0 None None"

text \<open>One car parked.\<close>

definition ejemplo_un_carro :: Parqueadero where
  "ejemplo_un_carro = fold ejecutar [Login ''ana'', Entrada ejemplo_carro] ejemplo_inicial"

text \<open>A car and a motorcycle parked: one slot left for cars, none for motorcycles.\<close>

definition ejemplo_carro_y_moto :: Parqueadero where
  "ejemplo_carro_y_moto =
     fold ejecutar [Login ''ana'', Entrada ejemplo_carro, Entrada ejemplo_moto] ejemplo_inicial"

text \<open>The motorcycle has left after three hours and twenty minutes.\<close>

definition ejemplo_con_historial :: Parqueadero where
  "ejemplo_con_historial =
     fold ejecutar
       [Login ''ana'', Entrada ejemplo_carro, Entrada ejemplo_moto, Salida ejemplo_3_horas ''xyz99'']
       ejemplo_inicial"

text \<open>The same plate registered twice, ten minutes apart.\<close>

definition ejemplo_repetida :: Parqueadero where
  "ejemplo_repetida =
     fold ejecutar [Login ''ana'', Entrada ejemplo_carro, Entrada ejemplo_carro_2] ejemplo_inicial"

text \<open>Four completed visits of the plate ABC123.\<close>

definition ejemplo_cuatro_visitas :: Parqueadero where
  "ejemplo_cuatro_visitas =
     fold ejecutar
       [Login ''ana'',
        Entrada ejemplo_carro, Salida ejemplo_10_min ''abc123'',
        Entrada ejemplo_carro, Salida ejemplo_10_min ''abc123'',
        Entrada ejemplo_carro, Salida ejemplo_10_min ''abc123'',
        Entrada ejemplo_carro, Salida ejemplo_10_min ''abc123'']
       ejemplo_inicial"

text \<open>
  A car whose entry time, given by the caller, is not a time; and a second car with the
  same plate, entered ten minutes later with the time of the clock.
\<close>

definition ejemplo_hora_mala :: Vehiculo where
  "ejemplo_hora_mala =
     Vehiculo_init ejemplo_t0 ''g1'' ''carro'' (Some ''ayer'') ''normal'' 0 None None"

definition ejemplo_hora_buena :: Vehiculo where
  "ejemplo_hora_buena =
     Vehiculo_init ejemplo_10_min ''g1'' ''carro'' None ''normal'' 0 None None"

text \<open>The first of the two parked: one slot left for cars.\<close>

definition ejemplo_un_carro_hora_mala :: Parqueadero where
  "ejemplo_un_carro_hora_mala =
     fold ejecutar [Login ''ana'', Entrada ejemplo_hora_mala] ejemplo_inicial"

text \<open>Both parked.\<close>

definition ejemplo_dos_carros_hora_mala :: Parqueadero where
  "ejemplo_dos_carros_hora_mala =
     fold ejecutar [Login ''ana'', Entrada ejemplo_hora_mala, Entrada ejemplo_hora_buena]
       ejemplo_inicial"

section \<open>Facts about the operations\<close>

subsection \<open>Dictionaries and lists\<close>

lemma get_update: "get (AList.update k v d) t dflt = (if t = k then v else get d t dflt)"
  by (simp add: get_def update_conv')

lemma length_filter_remove1:
  "v \<in> set xs \<Longrightarrow>
   int (length (filter P (remove1 v xs))) = int (length (filter P xs)) - (if P v then 1 else 0)"
  by (induction xs) auto

lemma remove1_first: "v \<notin> set pre \<Longrightarrow> remove1 v (pre @ v # post) = pre @ post"
  by (simp add: remove1_append)

subsection \<open>What an entry does\<close>

lemma registrar_entrada_cases:
  "registrar_entrada veh st = Inr (r, st') \<Longrightarrow>
     (get (cupos st) (tipo veh) 0 \<le> 0 \<and> r = (False, [SinCupos]) \<and> st' = st) \<or>
     (0 < get (cupos st) (tipo veh) 0 \<and> fst r = True \<and>
      (\<exists>n. visitas_previas (placa veh) (historial st) = Inr n \<and>
        vehiculos st' = vehiculos st @
          [veh\<lparr>visitas := n + 1, cliente := (if n + 1 \<ge> 5 then ''frecuente'' else cliente veh)\<rparr>]) \<and>
      cupos st' = AList.update (tipo veh) (get (cupos st) (tipo veh) 0 - 1) (cupos st) \<and>
      historial st' = historial st \<and> operador_actual st' = operador_actual st)"
  by (auto simp: registrar_entrada_def Let_def guardar_datos_def split: if_splits sum.splits)

subsection \<open>What an exit does\<close>

lemma salida_loop_none:
  "\<forall>v \<in> set vs. placa v \<noteq> q \<Longrightarrow> salida_loop now q vs st = Inr (None, st)"
  by (induction vs) auto

lemma salida_loop_found:
  "\<forall>u \<in> set pre. placa u \<noteq> q \<Longrightarrow> placa v = q \<Longrightarrow> strptime (hora_entrada v) = Some e \<Longrightarrow>
   salida_loop now q (pre @ v # post) st
     = Inr (Some (registro_de now e (operador_actual st) v), salida_de now e v st)"
  by (induction pre) (auto simp: salida_de_def Let_def)

lemma salida_loop_cases:
  "salida_loop now q vs st = Inr (r, st') \<Longrightarrow>
     (r = None \<and> st' = st \<and> (\<forall>v \<in> set vs. placa v \<noteq> q)) \<or>
     (\<exists>pre v post e. vs = pre @ v # post \<and> (\<forall>u \<in> set pre. placa u \<noteq> q) \<and> placa v = q \<and>
        strptime (hora_entrada v) = Some e \<and>
        r = Some (registro_de now e (operador_actual st) v) \<and> st' = salida_de now e v st)"
proof (induction vs)
  case Nil
  then show ?case by simp
next
  case (Cons a vs)
  show ?case
  proof (cases "placa a = q")
    case True
    with Cons.prems obtain e where e: "strptime (hora_entrada a) = Some e"
      and r: "r = Some (registro_de now e (operador_actual st) a)"
      and s: "st' = salida_de now e a st"
      by (auto simp: salida_de_def Let_def split: option.splits)
    have "a # vs = [] @ a # vs \<and> (\<forall>u \<in> set []. placa u \<noteq> q)" by simp
    with True e r s show ?thesis by blast
  next
    case False
    with Cons.prems have "salida_loop now q vs st = Inr (r, st')" by simp
    from Cons.IH[OF this] show ?thesis
    proof
      assume "r = None \<and> st' = st \<and> (\<forall>v\<in>set vs. placa v \<noteq> q)"
      with False show ?thesis by simp
    next
      assume "\<exists>pre v post e. vs = pre @ v # post \<and> (\<forall>u \<in> set pre. placa u \<noteq> q) \<and>
        placa v = q \<and> strptime (hora_entrada v) = Some e \<and>
        r = Some (registro_de now e (operador_actual st) v) \<and> st' = salida_de now e v st"
      then obtain pre v post e where h: "vs = pre @ v # post" "\<forall>u \<in> set pre. placa u \<noteq> q"
        "placa v = q" "strptime (hora_entrada v) = Some e"
        "r = Some (registro_de now e (operador_actual st) v)" "st' = salida_de now e v st"
        by blast
      have "a # vs = (a # pre) @ v # post \<and> (\<forall>u \<in> set (a # pre). placa u \<noteq> q)"
        using h False by simp
      with h show ?thesis by blast
    qed
  qed
qed

text \<open>A successful exit, seen from the caller.\<close>

lemma registrar_salida_Some:
  assumes "registrar_salida now p st = Inr (Some reg, st')"
  obtains pre v post e where
    "vehiculos st = pre @ v # post" "\<forall>u \<in> set pre. placa u \<noteq> upper p" "placa v = upper p"
    "strptime (hora_entrada v) = Some e"
    "reg = registro_de now e (operador_actual st) v" "st' = salida_de now e v st"
proof -
  from assms have "salida_loop now (upper p) (vehiculos st) st = Inr (Some reg, st')"
    by (simp add: registrar_salida_def)
  from salida_loop_cases[OF this] that show thesis by auto
qed

lemma vehiculos_salida_de:
  "vehiculos st = pre @ v # post \<Longrightarrow> \<forall>u \<in> set pre. placa u \<noteq> placa v \<Longrightarrow>
   vehiculos (salida_de now e v st) = pre @ post"
proof -
  assume a: "vehiculos st = pre @ v # post" and b: "\<forall>u \<in> set pre. placa u \<noteq> placa v"
  from b have "v \<notin> set pre" by blast
  with a show ?thesis by (simp add: salida_de_def guardar_datos_def remove1_first)
qed

subsection \<open>Runs of operations\<close>

lemma reachable_ejecutar: "reachable st0 st \<Longrightarrow> reachable st0 (ejecutar op st)"
proof (cases op)
  case (Login n)
  assume "reachable st0 st"
  with Login show ?thesis by (simp add: reach_login)
next
  case (Entrada veh)
  assume r: "reachable st0 st"
  show ?thesis
  proof (cases "registrar_entrada veh st")
    case (Inl e)
    with Entrada r show ?thesis by simp
  next
    case (Inr x)
    then obtain res st' where "registrar_entrada veh st = Inr (res, st')" by (cases x) auto
    with Entrada r reach_entrada[of st0 st veh res st'] show ?thesis by simp
  qed
next
  case (Salida now p)
  assume r: "reachable st0 st"
  show ?thesis
  proof (cases "registrar_salida now p st")
    case (Inl e)
    with Salida r show ?thesis by simp
  next
    case (Inr x)
    then obtain res st' where "registrar_salida now p st = Inr (res, st')" by (cases x) auto
    with Salida r reach_salida[of st0 st now p res st'] show ?thesis by simp
  qed
qed

lemma reachable_fold: "reachable st0 st \<Longrightarrow> reachable st0 (fold ejecutar ops st)"
  by (induction ops arbitrary: st) (simp_all add: reachable_ejecutar)

lemma reachable_nuevas_ejecutar:
  assumes "reachable_nuevas st0 st"
      and "case op of Entrada veh \<Rightarrow> placa veh \<notin> set (map placa (vehiculos st)) | _ \<Rightarrow> True"
  shows "reachable_nuevas st0 (ejecutar op st)"
proof (cases op)
  case (Login n)
  with assms(1) show ?thesis by (simp add: nuevas_login)
next
  case (Entrada veh)
  with assms(2) have f: "placa veh \<notin> set (map placa (vehiculos st))" by simp
  show ?thesis
  proof (cases "registrar_entrada veh st")
    case (Inl e)
    with Entrada assms(1) show ?thesis by simp
  next
    case (Inr x)
    then obtain res st' where "registrar_entrada veh st = Inr (res, st')" by (cases x) auto
    with Entrada nuevas_entrada[OF assms(1) f, of res st'] show ?thesis by simp
  qed
next
  case (Salida now p)
  show ?thesis
  proof (cases "registrar_salida now p st")
    case (Inl e)
    with Salida assms(1) show ?thesis by simp
  next
    case (Inr x)
    then obtain res st' where "registrar_salida now p st = Inr (res, st')" by (cases x) auto
    with Salida nuevas_salida[OF assms(1), of now p res st'] show ?thesis by simp
  qed
qed

section \<open>Capacity accounting\<close>

lemma entrada_cupos_activos:
  assumes "registrar_entrada veh st = Inr (r, st')"
  shows "get (cupos st') t 0 + activos t st' = get (cupos st) t 0 + activos t st"
  using registrar_entrada_cases[OF assms]
  by (auto simp: activos_def get_update)

lemma salida_de_cupos_activos:
  assumes "v \<in> set (vehiculos st)"
  shows "get (cupos (salida_de now e v st)) t 0 + activos t (salida_de now e v st)
           = get (cupos st) t 0 + activos t st"
  using assms
  by (simp add: salida_de_def guardar_datos_def activos_def get_update length_filter_remove1)

lemma salida_cupos_activos:
  assumes "registrar_salida now p st = Inr (r, st')"
  shows "get (cupos st') t 0 + activos t st' = get (cupos st) t 0 + activos t st"
proof (cases r)
  case None
  with assms have "salida_loop now (upper p) (vehiculos st) st = Inr (None, st')"
    by (simp add: registrar_salida_def)
  from salida_loop_cases[OF this] have "st' = st" by auto
  then show ?thesis by simp
next
  case (Some reg)
  with assms have "registrar_salida now p st = Inr (Some reg, st')" by simp
  then obtain pre v post e where h: "vehiculos st = pre @ v # post" "st' = salida_de now e v st"
    by (rule registrar_salida_Some)
  then have "v \<in> set (vehiculos st)" by simp
  from salida_de_cupos_activos[OF this] h show ?thesis by simp
qed

text \<open>
  Logins, entries and exits keep the sum of the remaining capacity of a type and of its
  active sessions, from any first state.
\<close>

lemma cupos_mas_activos_constante:
  assumes "reachable st0 st"
  shows "get (cupos st) t 0 + activos t st = get (cupos st0) t 0 + activos t st0"
  using assms
proof (induction rule: reachable.induct)
  case reach_init
  show ?case by simp
next
  case (reach_login st operador_name)
  then show ?case by (simp add: login_def activos_def)
next
  case (reach_entrada st veh r st')
  with entrada_cupos_activos[OF reach_entrada.hyps(2)] show ?case by simp
next
  case (reach_salida st now' p r st')
  with salida_cupos_activos[OF reach_salida.hyps(2)] show ?case by simp
qed

text \<open>
  C1. From a ledger built on the configured capacities \<open>cfg\<close> with no data file, and
  after any sequence of logins, entries and exits, the remaining capacity of a type
  \<open>t\<close> (\<open>cupos.get(t, 0)\<close>) plus the number of active sessions of that type is the
  configured capacity of the type.
\<close>

theorem cupos_mas_activos_invariante:
  assumes "reachable (Parqueadero_init now cfg None) st"
  shows "get (cupos st) t 0 + activos t st = get cfg t 0"
  using cupos_mas_activos_constante[OF assms, of t]
  by (simp add: Parqueadero_init_def cargar_datos_def activos_def)

theorem cupos_mas_activos_invariante_witness:
  "reachable (Parqueadero_init ejemplo_t0 ejemplo_cfg None) ejemplo_carro_y_moto \<and>
   get (cupos ejemplo_carro_y_moto) ''carro'' 0 = 1 \<and>
   activos ''carro'' ejemplo_carro_y_moto = 1 \<and>
   get (cupos ejemplo_carro_y_moto) ''carro'' 0 + activos ''carro'' ejemplo_carro_y_moto
     = get ejemplo_cfg ''carro'' 0"
proof -
  have r: "reachable (Parqueadero_init ejemplo_t0 ejemplo_cfg None) ejemplo_carro_y_moto"
    unfolding ejemplo_carro_y_moto_def ejemplo_inicial_def
    by (rule reachable_fold) (rule reach_init)
  have c: "get (cupos ejemplo_carro_y_moto) ''carro'' 0 = 1" by code_simp
  have a: "activos ''carro'' ejemplo_carro_y_moto = 1" by code_simp
  from r c a cupos_mas_activos_invariante[OF r, of "''carro''"] show ?thesis by simp
qed

section \<open>Rejected calls\<close>

lemma registrar_entrada_sin_cupos_le:
  "get (cupos st) (tipo veh) 0 \<le> 0 \<Longrightarrow>
   registrar_entrada veh st = Inr ((False, [SinCupos]), st)"
  by (simp add: registrar_entrada_def)

text \<open>
  C5. With no capacity left for the type of the session, \<open>registrar_entrada\<close>
  returns \<open>False\<close> with the rejection message alone (neither of the two alerts of an
  accepted entry) and the state, data file included, is the state before the call.
\<close>

theorem registrar_entrada_sin_cupos:
  "get (cupos st) (tipo veh) 0 = 0 \<Longrightarrow>
   registrar_entrada veh st = Inr ((False, [SinCupos]), st)"
  by (simp add: registrar_entrada_def)

theorem registrar_entrada_sin_cupos_witness:
  "get (cupos ejemplo_carro_y_moto) (tipo ejemplo_bici) 0 = 0 \<and>
   registrar_entrada ejemplo_bici ejemplo_carro_y_moto
     = Inr ((False, [SinCupos]), ejemplo_carro_y_moto)"
proof -
  have h: "get (cupos ejemplo_carro_y_moto) (tipo ejemplo_bici) 0 = 0" by code_simp
  from h registrar_entrada_sin_cupos[OF h] show ?thesis by simp
qed

text \<open>
  C6. When no active session has the plate (the argument in upper case, as the method
  compares it), \<open>registrar_salida\<close> returns \<open>None\<close> and the state, data file
  included, is the state before the call.
\<close>

theorem registrar_salida_no_encontrada:
  "\<forall>v \<in> set (vehiculos st). placa v \<noteq> upper p \<Longrightarrow> registrar_salida now p st = Inr (None, st)"
  by (simp add: registrar_salida_def salida_loop_none)

theorem registrar_salida_no_encontrada_witness:
  "list_all (\<lambda>v. placa v \<noteq> upper ''zzz000'') (vehiculos ejemplo_carro_y_moto) \<and>
   registrar_salida ejemplo_10_min ''zzz000'' ejemplo_carro_y_moto
     = Inr (None, ejemplo_carro_y_moto)"
proof -
  have l: "list_all (\<lambda>v. placa v \<noteq> upper ''zzz000'') (vehiculos ejemplo_carro_y_moto)"
    by code_simp
  then have h: "\<forall>v \<in> set (vehiculos ejemplo_carro_y_moto). placa v \<noteq> upper ''zzz000''"
    by (simp add: list_all_iff)
  from l registrar_salida_no_encontrada[OF h] show ?thesis by blast
qed

section \<open>Visits and tier at entry\<close>

text \<open>
  Two plates are the same whatever the case of their letters when their upper-case
  forms are equal, which is when their lower-case forms are.
\<close>

lemma lower_upper_char: "lower_char (upper_char c) = lower_char c"
proof -
  define n where "n = (of_char c :: nat)"
  show ?thesis
  proof (cases "97 \<le> n \<and> n \<le> 122")
    case True
    then have "n - 32 < 256" by arith
    then have o: "(of_char (char_of (n - 32)) :: nat) = n - 32" by simp
    from True have u: "upper_char c = char_of (n - 32)"
      unfolding upper_char_def Let_def n_def by presburger
    from True have "65 \<le> n - 32 \<and> n - 32 \<le> 90" by arith
    with o have "lower_char (char_of (n - 32)) = char_of (n - 32 + 32)"
      unfolding lower_char_def Let_def by presburger
    moreover from True have "n - 32 + 32 = n" by arith
    moreover have "char_of n = c" by (simp add: n_def)
    moreover from True have "lower_char c = c" unfolding lower_char_def Let_def n_def by presburger
    ultimately show ?thesis using u by simp
  next
    case False
    then have "upper_char c = c" unfolding upper_char_def Let_def n_def by presburger
    then show ?thesis by simp
  qed
qed

lemma upper_lower_char: "upper_char (lower_char c) = upper_char c"
proof -
  define n where "n = (of_char c :: nat)"
  show ?thesis
  proof (cases "65 \<le> n \<and> n \<le> 90")
    case True
    then have "n + 32 < 256" by arith
    then have o: "(of_char (char_of (n + 32)) :: nat) = n + 32" by simp
    from True have l: "lower_char c = char_of (n + 32)"
      unfolding lower_char_def Let_def n_def by presburger
    from True have "97 \<le> n + 32 \<and> n + 32 \<le> 122" by arith
    with o have "upper_char (char_of (n + 32)) = char_of (n + 32 - 32)"
      unfolding upper_char_def Let_def by presburger
    moreover have "n + 32 - 32 = n" by arith
    moreover have "char_of n = c" by (simp add: n_def)
    moreover from True have "upper_char c = c" unfolding upper_char_def Let_def n_def by presburger
    ultimately show ?thesis using l by simp
  next
    case False
    then have "lower_char c = c" unfolding lower_char_def Let_def n_def by presburger
    then show ?thesis by simp
  qed
qed

lemma upper_eq_iff_lower_eq: "upper a = upper b \<longleftrightarrow> lower a = lower b"
proof
  assume "upper a = upper b"
  then have "lower (upper a) = lower (upper b)" by simp
  then show "lower a = lower b" by (simp add: lower_def upper_def lower_upper_char comp_def)
next
  assume "lower a = lower b"
  then have "upper (lower a) = upper (lower b)" by simp
  then show "upper a = upper b" by (simp add: lower_def upper_def upper_lower_char comp_def)
qed

lemma visitas_previas_count:
  "visitas_previas p rs = Inr n \<Longrightarrow> n = int (length (filter (misma_placa p) rs))"
proof (induction rs arbitrary: n)
  case Nil
  then show ?case by simp
next
  case (Cons r rs)
  from Cons.prems obtain x where x: "subscript r ''placa'' = Inr x"
    by (auto split: sum.splits)
  from Cons.prems x obtain q where q: "json_upper x = Inr q"
    by (auto split: sum.splits)
  from Cons.prems x q obtain m where m: "visitas_previas p rs = Inr m"
    and n: "n = (if q = upper p then 1 else 0) + m"
    by (auto split: sum.splits)
  from q obtain s where s: "x = JStr s" "q = upper s" by (cases x) auto
  from x s have d: "dict_get r ''placa'' = Some (JStr s)"
    by (cases r) (auto split: option.splits)
  from Cons.IH[OF m] n s d show ?case by (simp add: misma_placa_def)
qed

text \<open>
  C2, as the code has it. An accepted session gets as its visits 1 plus the number of
  history records with its plate, whatever the case of the letters; with 5 visits or
  more its tier becomes \<open>frecuente\<close>, whatever tier the caller gave it (the tier
  \<open>mensual\<close> too); with fewer visits the tier stays as the caller gave it.
\<close>

theorem registrar_entrada_visitas_y_cliente:
  assumes "registrar_entrada veh st = Inr ((True, alerts), st')"
  shows "vehiculos st' = vehiculos st @
           [veh\<lparr>visitas := 1 + int (length (filter (misma_placa (placa veh)) (historial st))),
                cliente := (if 1 + int (length (filter (misma_placa (placa veh)) (historial st))) \<ge> 5
                            then ''frecuente'' else cliente veh)\<rparr>]"
proof -
  from registrar_entrada_cases[OF assms] obtain n where
    n: "visitas_previas (placa veh) (historial st) = Inr n" and
    v: "vehiculos st' = vehiculos st @
          [veh\<lparr>visitas := n + 1, cliente := (if n + 1 \<ge> 5 then ''frecuente'' else cliente veh)\<rparr>]"
    by auto
  from visitas_previas_count[OF n] v show ?thesis by (simp add: add.commute)
qed

theorem registrar_entrada_visitas_y_cliente_witness:
  "registrar_entrada ejemplo_mensual ejemplo_inicial
     = Inr ((True, [QuedaUnCupo ''carro'']), ejecutar (Entrada ejemplo_mensual) ejemplo_inicial) \<and>
   vehiculos (ejecutar (Entrada ejemplo_mensual) ejemplo_inicial)
     = [ejemplo_mensual\<lparr>visitas := 1, cliente := ''mensual''\<rparr>]"
proof -
  have h: "registrar_entrada ejemplo_mensual ejemplo_inicial
     = Inr ((True, [QuedaUnCupo ''carro'']), ejecutar (Entrada ejemplo_mensual) ejemplo_inicial)"
    by code_simp
  have i: "vehiculos ejemplo_inicial = []" "historial ejemplo_inicial = []"
    by code_simp+
  have c: "cliente ejemplo_mensual = ''mensual''" by code_simp
  have v: "vehiculos (ejecutar (Entrada ejemplo_mensual) ejemplo_inicial)
     = [ejemplo_mensual\<lparr>visitas := 1, cliente := ''mensual''\<rparr>]"
    using registrar_entrada_visitas_y_cliente[OF h] by (simp add: i c del: ejecutar.simps)
  from h v show ?thesis by (rule conjI)
qed

text \<open>
  The claim C2 as it is written fails: a session that enters with the tier
  \<open>mensual\<close> after four completed visits of its plate is stored with 5 visits and
  the tier \<open>frecuente\<close>.
\<close>

theorem registrar_entrada_mensual_degradado:
  "cliente ejemplo_mensual = ''mensual'' \<and>
   map_sum id (\<lambda>(r, st). (r, map (\<lambda>v. (placa v, cliente v, visitas v)) (vehiculos st)))
     (registrar_entrada ejemplo_mensual ejemplo_cuatro_visitas)
   = Inr ((True, [QuedaUnCupo ''carro'', ClienteFrecuente]), [(''ABC123'', ''frecuente'', 5)])"
  by code_simp

section \<open>Hours and total at exit\<close>

lemma dict_get_registro:
  "dict_get (registro_de now e op v) ''horas''
     = Some (JInt (horas_de (total_seconds (datetime_sub now e))))"
  "dict_get (registro_de now e op v) ''total''
     = Some (JFloat (total_de (horas_de (total_seconds (datetime_sub now e))) (tipo v) (cliente v)))"
  "dict_get (registro_de now e op v) ''cliente'' = Some (JStr (cliente v))"
  "dict_get (registro_de now e op v) ''tipo'' = Some (JStr (tipo v))"
  "dict_get (registro_de now e op v) ''placa'' = Some (JStr (placa v))"
  by (simp_all add: registro_de_def Let_def)

lemma total_de_cases:
  "total_de h t c =
     (if c = ''frecuente'' then of_int (h * get tarifas t 1000) * (9 / 10)
      else if c = ''mensual'' then 0 else of_int (h * get tarifas t 1000))"
  by (simp add: total_de_def Let_def)

lemma registrar_salida_primera:
  assumes "vehiculos st = pre @ v # post"
      and "\<forall>u \<in> set pre. placa u \<noteq> upper p"
      and "placa v = upper p"
      and "strptime (hora_entrada v) = Some e"
  shows "registrar_salida now p st
           = Inr (Some (registro_de now e (operador_actual st) v), salida_de now e v st)"
  using assms by (simp add: registrar_salida_def salida_loop_found)

text \<open>
  C3. The history record of a session that leaves holds as its hours the larger of 1
  and the whole hours (rounded down) of the seconds from the entry time of the session
  to the clock at exit: 1 hour for 10 minutes, 2 hours for 125 minutes. The session that
  leaves is the first active one with the plate, and \<open>e\<close> is its entry time as
  \<open>strptime\<close> reads it.
\<close>

theorem registrar_salida_horas:
  assumes "registrar_salida now p st = Inr (Some reg, st')"
  shows "\<exists>pre v post e.
           vehiculos st = pre @ v # post \<and> list_all (\<lambda>u. placa u \<noteq> upper p) pre \<and>
           placa v = upper p \<and> strptime (hora_entrada v) = Some e \<and>
           dict_get reg ''horas''
             = Some (JInt (max 1 \<lfloor>total_seconds (datetime_sub now e) / 3600\<rfloor>)) \<and>
           (total_seconds (datetime_sub now e) = 10 * 60 \<longrightarrow> dict_get reg ''horas'' = Some (JInt 1)) \<and>
           (total_seconds (datetime_sub now e) = 125 * 60 \<longrightarrow> dict_get reg ''horas'' = Some (JInt 2))"
proof -
  from assms obtain pre v post e where h:
    "vehiculos st = pre @ v # post" "\<forall>u \<in> set pre. placa u \<noteq> upper p" "placa v = upper p"
    "strptime (hora_entrada v) = Some e"
    "reg = registro_de now e (operador_actual st) v"
    by (rule registrar_salida_Some)
  define ts where "ts = total_seconds (datetime_sub now e)"
  have hh: "dict_get reg ''horas'' = Some (JInt (max 1 \<lfloor>ts / 3600\<rfloor>))"
    using h(5) by (simp add: dict_get_registro horas_de_def ts_def)
  have i1: "ts = 10 * 60 \<longrightarrow> dict_get reg ''horas'' = Some (JInt 1)"
    using hh by simp
  have i2: "ts = 125 * 60 \<longrightarrow> dict_get reg ''horas'' = Some (JInt 2)"
    using hh by (simp add: floor_eq_iff)
  have l: "list_all (\<lambda>u. placa u \<noteq> upper p) pre" using h(2) by (simp add: list_all_iff)
  from h(1) l h(3) h(4) hh i1 i2 show ?thesis
    unfolding ts_def by blast
qed

theorem registrar_salida_horas_witness:
  "registrar_salida ejemplo_10_min ''abc123'' ejemplo_un_carro
     = Inr (Some (registro_de ejemplo_10_min ejemplo_t0 (Some ''ana'') (ejemplo_carro\<lparr>visitas := 1\<rparr>)),
            ejecutar (Salida ejemplo_10_min ''abc123'') ejemplo_un_carro) \<and>
   dict_get (registro_de ejemplo_10_min ejemplo_t0 (Some ''ana'') (ejemplo_carro\<lparr>visitas := 1\<rparr>))
     ''horas'' = Some (JInt 1)"
proof -
  let ?v = "ejemplo_carro\<lparr>visitas := 1\<rparr>"
  let ?reg = "registro_de ejemplo_10_min ejemplo_t0 (Some ''ana'') ?v"
  have h: "registrar_salida ejemplo_10_min ''abc123'' ejemplo_un_carro
     = Inr (Some ?reg, ejecutar (Salida ejemplo_10_min ''abc123'') ejemplo_un_carro)"
    by code_simp
  from registrar_salida_horas[OF h] obtain pre v post e where
    a: "vehiculos ejemplo_un_carro = pre @ v # post" and
    b: "strptime (hora_entrada v) = Some e" and
    c: "total_seconds (datetime_sub ejemplo_10_min e) = 10 * 60
          \<longrightarrow> dict_get ?reg ''horas'' = Some (JInt 1)"
    by blast
  have vs: "vehiculos ejemplo_un_carro = [?v]" by code_simp
  from a vs have v: "v = ?v" by (simp add: Cons_eq_append_conv)
  have "strptime (hora_entrada ?v) = Some ejemplo_t0" by code_simp
  with b v have e: "e = ejemplo_t0" by simp
  have "total_seconds (datetime_sub ejemplo_10_min ejemplo_t0) = 10 * 60" by code_simp
  with c e have "dict_get ?reg ''horas'' = Some (JInt 1)" by simp
  with h show ?thesis by (rule conjI)
qed

text \<open>
  The exit of the same car 125 minutes after its entry is billed 2 hours.
\<close>

lemma registrar_salida_125_minutos:
  "map_sum id (\<lambda>(r, st). map_option (\<lambda>reg. dict_get reg ''horas'') r)
     (registrar_salida ejemplo_125_min ''abc123'' ejemplo_un_carro)
   = Inr (Some (Some (JInt 2)))"
  by code_simp

text \<open>
  C4. The session that leaves is the first active one with the plate; \<open>e\<close> is its
  entry time as \<open>strptime\<close> reads it and \<open>h\<close> its billed hours, the larger of 1
  and the whole hours from \<open>e\<close> to the clock. The record returned, which is the one
  appended to the history, holds the type and the tier of that session, the hours
  \<open>h\<close>, and as its total \<open>h\<close> times the hourly rate of the type (1000 for a type
  without a rate), times 0.9 when the tier is \<open>frecuente\<close>, and 0 when the tier is
  \<open>mensual\<close>: 2700 for a frequent customer with 3 hours at the rate 1000. Floats are
  exact here.
\<close>

theorem registrar_salida_total:
  assumes "registrar_salida now p st = Inr (Some reg, st')"
  shows "\<exists>pre v post e h.
           vehiculos st = pre @ v # post \<and> list_all (\<lambda>u. placa u \<noteq> upper p) pre \<and>
           placa v = upper p \<and> strptime (hora_entrada v) = Some e \<and>
           h = max 1 \<lfloor>total_seconds (datetime_sub now e) / 3600\<rfloor> \<and>
           dict_get reg ''tipo'' = Some (JStr (tipo v)) \<and>
           dict_get reg ''cliente'' = Some (JStr (cliente v)) \<and>
           dict_get reg ''horas'' = Some (JInt h) \<and>
           dict_get reg ''total'' = Some (JFloat
             (if cliente v = ''frecuente'' then of_int (h * get tarifas (tipo v) 1000) * (9 / 10)
              else if cliente v = ''mensual'' then 0
              else of_int (h * get tarifas (tipo v) 1000))) \<and>
           (cliente v = ''frecuente'' \<and> h = 3 \<and> get tarifas (tipo v) 1000 = 1000
              \<longrightarrow> dict_get reg ''total'' = Some (JFloat 2700)) \<and>
           (cliente v = ''mensual'' \<longrightarrow> dict_get reg ''total'' = Some (JFloat 0)) \<and>
           historial st' = historial st @ [reg]"
proof -
  from assms obtain pre v post e where h:
    "vehiculos st = pre @ v # post" "\<forall>u \<in> set pre. placa u \<noteq> upper p" "placa v = upper p"
    "strptime (hora_entrada v) = Some e"
    "reg = registro_de now e (operador_actual st) v" "st' = salida_de now e v st"
    by (rule registrar_salida_Some)
  define n where "n = max 1 \<lfloor>total_seconds (datetime_sub now e) / 3600\<rfloor>"
  have hn: "horas_de (total_seconds (datetime_sub now e)) = n"
    by (simp add: horas_de_def n_def)
  have l: "list_all (\<lambda>u. placa u \<noteq> upper p) pre" using h(2) by (simp add: list_all_iff)
  have t: "dict_get reg ''tipo'' = Some (JStr (tipo v))"
    and c: "dict_get reg ''cliente'' = Some (JStr (cliente v))"
    and ho: "dict_get reg ''horas'' = Some (JInt n)"
    unfolding h(5) by (simp_all add: dict_get_registro hn)
  have tot: "dict_get reg ''total'' = Some (JFloat
             (if cliente v = ''frecuente'' then of_int (n * get tarifas (tipo v) 1000) * (9 / 10)
              else if cliente v = ''mensual'' then 0
              else of_int (n * get tarifas (tipo v) 1000)))"
    unfolding h(5) by (simp add: dict_get_registro hn total_de_cases)
  have i1: "cliente v = ''frecuente'' \<and> n = 3 \<and> get tarifas (tipo v) 1000 = 1000
              \<longrightarrow> dict_get reg ''total'' = Some (JFloat 2700)"
    using tot by simp
  have i2: "cliente v = ''mensual'' \<longrightarrow> dict_get reg ''total'' = Some (JFloat 0)"
    using tot by simp
  have hi: "historial st' = historial st @ [reg]"
    unfolding h(5,6) by (simp add: salida_de_def guardar_datos_def)
  from h(1) l h(3) h(4) t c ho tot i1 i2 hi show ?thesis
    unfolding n_def by blast
qed

theorem registrar_salida_total_witness:
  "registrar_salida ejemplo_3_horas ''xyz99'' ejemplo_carro_y_moto
     = Inr (Some (registro_de ejemplo_3_horas ejemplo_t0 (Some ''ana'') (ejemplo_moto\<lparr>visitas := 1\<rparr>)),
            ejemplo_con_historial) \<and>
   cliente (ejemplo_moto\<lparr>visitas := 1\<rparr>) = ''frecuente'' \<and>
   dict_get (registro_de ejemplo_3_horas ejemplo_t0 (Some ''ana'') (ejemplo_moto\<lparr>visitas := 1\<rparr>))
     ''total'' = Some (JFloat 2700)"
proof -
  let ?m = "ejemplo_moto\<lparr>visitas := 1\<rparr>"
  let ?reg = "registro_de ejemplo_3_horas ejemplo_t0 (Some ''ana'') ?m"
  have h: "registrar_salida ejemplo_3_horas ''xyz99'' ejemplo_carro_y_moto
     = Inr (Some ?reg, ejemplo_con_historial)"
    by code_simp
  from registrar_salida_total[OF h] obtain pre v post e n where
    a: "vehiculos ejemplo_carro_y_moto = pre @ v # post" and
    l: "list_all (\<lambda>u. placa u \<noteq> upper ''xyz99'') pre" and
    pv: "placa v = upper ''xyz99''" and
    b: "strptime (hora_entrada v) = Some e" and
    n: "n = max 1 \<lfloor>total_seconds (datetime_sub ejemplo_3_horas e) / 3600\<rfloor>" and
    i: "cliente v = ''frecuente'' \<and> n = 3 \<and> get tarifas (tipo v) 1000 = 1000
          \<longrightarrow> dict_get ?reg ''total'' = Some (JFloat 2700)"
    by blast
  have vs: "vehiculos ejemplo_carro_y_moto = [ejemplo_carro\<lparr>visitas := 1\<rparr>, ?m]" by code_simp
  have pc: "placa (ejemplo_carro\<lparr>visitas := 1\<rparr>) \<noteq> upper ''xyz99''" by code_simp
  have pm: "placa ?m = upper ''xyz99''" by code_simp
  from a vs have "pre = [] \<and> v = ejemplo_carro\<lparr>visitas := 1\<rparr> \<or>
      pre = [ejemplo_carro\<lparr>visitas := 1\<rparr>] \<and> v = ?m"
    by (auto simp: append_eq_Cons_conv Cons_eq_append_conv)
  with pv pc have v: "v = ?m" by auto
  have "strptime (hora_entrada ?m) = Some ejemplo_t0" by code_simp
  with b v have e: "e = ejemplo_t0" by simp
  have "max 1 \<lfloor>total_seconds (datetime_sub ejemplo_3_horas ejemplo_t0) / 3600\<rfloor> = 3"
    by code_simp
  with n e have n3: "n = 3" by simp
  have c: "cliente ?m = ''frecuente''" by code_simp
  have t: "get tarifas (tipo ?m) 1000 = 1000" by code_simp
  from i v n3 c t have "dict_get ?reg ''total'' = Some (JFloat 2700)" by simp
  with h c show ?thesis by blast
qed

text \<open>
  C10, as the code has it. When several active sessions have the plate and the entry
  time of the first of them reads as a time, \<open>registrar_salida\<close> takes out that
  first one in the order of the list (the order of entry), appends the one history
  record made from it, gives one slot back to its type and to no other type, and keeps
  every other session, the later ones with the same plate among them.
\<close>

theorem registrar_salida_placa_repetida:
  assumes "vehiculos st = pre @ v # post"
      and "\<forall>u \<in> set pre. placa u \<noteq> upper p"
      and "placa v = upper p"
      and "\<exists>u \<in> set post. placa u = upper p"
      and "strptime (hora_entrada v) = Some e"
  shows "\<exists>reg st'. registrar_salida now p st = Inr (Some reg, st') \<and>
           reg = registro_de now e (operador_actual st) v \<and>
           vehiculos st' = pre @ post \<and>
           historial st' = historial st @ [reg] \<and>
           cupos st' = AList.update (tipo v) (get (cupos st) (tipo v) 0 + 1) (cupos st) \<and>
           get (cupos st') (tipo v) 0 = get (cupos st) (tipo v) 0 + 1 \<and>
           (\<forall>t. t \<noteq> tipo v \<longrightarrow> get (cupos st') t 0 = get (cupos st) t 0) \<and>
           filter (\<lambda>u. placa u = upper p) (vehiculos st') = filter (\<lambda>u. placa u = upper p) post \<and>
           filter (\<lambda>u. placa u = upper p) (vehiculos st') \<noteq> []"
proof -
  let ?reg = "registro_de now e (operador_actual st) v"
  let ?st' = "salida_de now e v st"
  have r: "registrar_salida now p st = Inr (Some ?reg, ?st')"
    using assms(1,2,3,5) by (rule registrar_salida_primera)
  from assms(2,3) have "\<forall>u \<in> set pre. placa u \<noteq> placa v" by simp
  from vehiculos_salida_de[OF assms(1) this] have v: "vehiculos ?st' = pre @ post" .
  have h: "historial ?st' = historial st @ [?reg]"
    by (simp add: salida_de_def guardar_datos_def)
  have c: "cupos ?st' = AList.update (tipo v) (get (cupos st) (tipo v) 0 + 1) (cupos st)"
    by (simp add: salida_de_def guardar_datos_def)
  have g1: "get (cupos ?st') (tipo v) 0 = get (cupos st) (tipo v) 0 + 1"
    by (simp add: c get_update)
  have g2: "\<forall>t. t \<noteq> tipo v \<longrightarrow> get (cupos ?st') t 0 = get (cupos st) t 0"
    by (simp add: c get_update)
  have f: "filter (\<lambda>u. placa u = upper p) (vehiculos ?st') = filter (\<lambda>u. placa u = upper p) post"
    using assms(2) by (simp add: v)
  have n: "filter (\<lambda>u. placa u = upper p) (vehiculos ?st') \<noteq> []"
    unfolding f using assms(4) by (simp add: filter_empty_conv)
  from r v h c g1 g2 f n show ?thesis by blast
qed

theorem registrar_salida_placa_repetida_witness:
  "vehiculos ejemplo_repetida = [] @ ejemplo_carro\<lparr>visitas := 1\<rparr> # [ejemplo_carro_2\<lparr>visitas := 1\<rparr>] \<and>
   placa (ejemplo_carro\<lparr>visitas := 1\<rparr>) = upper ''abc123'' \<and>
   placa (ejemplo_carro_2\<lparr>visitas := 1\<rparr>) = upper ''abc123'' \<and>
   strptime (hora_entrada (ejemplo_carro\<lparr>visitas := 1\<rparr>)) = Some ejemplo_t0 \<and>
   registrar_salida ejemplo_125_min ''abc123'' ejemplo_repetida
     = Inr (Some (registro_de ejemplo_125_min ejemplo_t0 (Some ''ana'') (ejemplo_carro\<lparr>visitas := 1\<rparr>)),
            ejecutar (Salida ejemplo_125_min ''abc123'') ejemplo_repetida) \<and>
   vehiculos (ejecutar (Salida ejemplo_125_min ''abc123'') ejemplo_repetida)
     = [ejemplo_carro_2\<lparr>visitas := 1\<rparr>] \<and>
   historial (ejecutar (Salida ejemplo_125_min ''abc123'') ejemplo_repetida)
     = [registro_de ejemplo_125_min ejemplo_t0 (Some ''ana'') (ejemplo_carro\<lparr>visitas := 1\<rparr>)] \<and>
   get (cupos ejemplo_repetida) ''carro'' 0 = 0 \<and>
   get (cupos (ejecutar (Salida ejemplo_125_min ''abc123'') ejemplo_repetida)) ''carro'' 0 = 1"
proof -
  let ?v = "ejemplo_carro\<lparr>visitas := 1\<rparr>"
  let ?w = "ejemplo_carro_2\<lparr>visitas := 1\<rparr>"
  let ?st' = "ejecutar (Salida ejemplo_125_min ''abc123'') ejemplo_repetida"
  have a1: "vehiculos ejemplo_repetida = [] @ ?v # [?w]" by code_simp
  have a2: "\<forall>u \<in> set []. placa u \<noteq> upper ''abc123''" by simp
  have a3: "placa ?v = upper ''abc123''" by code_simp
  have w: "placa ?w = upper ''abc123''" by code_simp
  then have a4: "\<exists>u \<in> set [?w]. placa u = upper ''abc123''" by simp
  have a5: "strptime (hora_entrada ?v) = Some ejemplo_t0" by code_simp
  have o: "operador_actual ejemplo_repetida = Some ''ana''" "historial ejemplo_repetida = []"
    "tipo ?v = ''carro''" "get (cupos ejemplo_repetida) ''carro'' 0 = 0"
    by code_simp+
  from registrar_salida_placa_repetida[OF a1 a2 a3 a4 a5, of ejemplo_125_min]
  obtain reg st' where
    r: "registrar_salida ejemplo_125_min ''abc123'' ejemplo_repetida = Inr (Some reg, st')" and
    g: "reg = registro_de ejemplo_125_min ejemplo_t0 (operador_actual ejemplo_repetida) ?v" and
    v: "vehiculos st' = [] @ [?w]" and
    h: "historial st' = historial ejemplo_repetida @ [reg]" and
    c: "get (cupos st') (tipo ?v) 0 = get (cupos ejemplo_repetida) (tipo ?v) 0 + 1"
    by blast
  from r have s: "?st' = st'" by simp
  from a1 a3 w a5 r g v h c s o show ?thesis by (simp del: ejecutar.simps)
qed

text \<open>
  When the entry time of the first session with the plate does not read as a time,
  \<open>strptime\<close> raises before any assignment: no session leaves.
\<close>

lemma registrar_salida_hora_ilegible:
  assumes "vehiculos st = pre @ v # post"
      and "\<forall>u \<in> set pre. placa u \<noteq> upper p"
      and "placa v = upper p"
      and "strptime (hora_entrada v) = None"
  shows "registrar_salida now p st = Inl ValueError"
proof -
  have "salida_loop now q (pre @ v # post) s = Inl ValueError"
    if "\<forall>u \<in> set pre. placa u \<noteq> q" "placa v = q" for q s
    using that assms(4) by (induction pre) auto
  with assms(1,2,3) show ?thesis by (simp add: registrar_salida_def)
qed

text \<open>
  The claim C10 as it is written fails: two cars with the plate G1 are parked, the
  first with the entry time "ayer" that its caller gave; the exit for the plate raises
  ValueError, and both sessions stay.
\<close>

theorem placa_repetida_hora_ilegible_no_sale:
  "reachable (Parqueadero_init ejemplo_t0 ejemplo_cfg None) ejemplo_dos_carros_hora_mala \<and>
   map placa (vehiculos ejemplo_dos_carros_hora_mala) = [''G1'', ''G1''] \<and>
   map hora_entrada (vehiculos ejemplo_dos_carros_hora_mala) = [''ayer'', ''2024-03-01 10:10:00''] \<and>
   registrar_salida ejemplo_125_min ''g1'' ejemplo_dos_carros_hora_mala = Inl ValueError \<and>
   ejecutar (Salida ejemplo_125_min ''g1'') ejemplo_dos_carros_hora_mala
     = ejemplo_dos_carros_hora_mala"
proof -
  have r: "reachable (Parqueadero_init ejemplo_t0 ejemplo_cfg None) ejemplo_dos_carros_hora_mala"
    unfolding ejemplo_dos_carros_hora_mala_def ejemplo_inicial_def
    by (rule reachable_fold) (rule reach_init)
  have p: "map placa (vehiculos ejemplo_dos_carros_hora_mala) = [''G1'', ''G1'']" by code_simp
  have h: "map hora_entrada (vehiculos ejemplo_dos_carros_hora_mala)
             = [''ayer'', ''2024-03-01 10:10:00'']" by code_simp
  have s: "registrar_salida ejemplo_125_min ''g1'' ejemplo_dos_carros_hora_mala = Inl ValueError"
    by code_simp
  then have e: "ejecutar (Salida ejemplo_125_min ''g1'') ejemplo_dos_carros_hora_mala
     = ejemplo_dos_carros_hora_mala" by simp
  from r p h s e show ?thesis by blast
qed

section \<open>Saving and loading\<close>

lemma upper_char_idem: "upper_char (upper_char c) = upper_char c"
proof -
  define n where "n = (of_char c :: nat)"
  show ?thesis
  proof (cases "97 \<le> n \<and> n \<le> 122")
    case True
    then have "n - 32 < 256" by arith
    then have "(of_char (char_of (n - 32)) :: nat) = n - 32" by simp
    moreover from True have "\<not> (97 \<le> n - 32 \<and> n - 32 \<le> 122)" by arith
    ultimately have "upper_char (char_of (n - 32)) = char_of (n - 32)"
      unfolding upper_char_def Let_def by presburger
    moreover from True have "upper_char c = char_of (n - 32)"
      unfolding upper_char_def Let_def n_def by presburger
    ultimately show ?thesis by simp
  next
    case False
    then have "upper_char c = c" unfolding upper_char_def Let_def n_def by presburger
    then show ?thesis by simp
  qed
qed

lemma lower_char_idem: "lower_char (lower_char c) = lower_char c"
proof -
  define n where "n = (of_char c :: nat)"
  show ?thesis
  proof (cases "65 \<le> n \<and> n \<le> 90")
    case True
    then have "n + 32 < 256" by arith
    then have "(of_char (char_of (n + 32)) :: nat) = n + 32" by simp
    moreover from True have "\<not> (65 \<le> n + 32 \<and> n + 32 \<le> 90)" by arith
    ultimately have "lower_char (char_of (n + 32)) = char_of (n + 32)"
      unfolding lower_char_def Let_def by presburger
    moreover from True have "lower_char c = char_of (n + 32)"
      unfolding lower_char_def Let_def n_def by presburger
    ultimately show ?thesis by simp
  next
    case False
    then have "lower_char c = c" unfolding lower_char_def Let_def n_def by presburger
    then show ?thesis by simp
  qed
qed

lemma upper_idem: "upper (upper s) = upper s"
  by (simp add: upper_def upper_char_idem)

lemma lower_idem: "lower (lower s) = lower s"
  by (simp add: lower_def lower_char_idem)

lemma strftime_not_empty: "strftime d \<noteq> []"
  by (simp add: strftime_def pad4_def)

lemma Vehiculo_init_ok: "vehiculo_ok (Vehiculo_init now p t h c n la lo)"
  by (simp add: vehiculo_ok_def Vehiculo_init_def upper_idem lower_idem strftime_not_empty
      split: option.splits)

lemma coord_arg_json_of_coord: "coord_arg (json_of_coord x) = Some x"
  by (cases x) (simp_all add: json_of_coord_def)

lemma from_dict_to_dict: "vehiculo_ok v \<Longrightarrow> from_dict now (to_dict v) = Some v"
  by (simp add: from_dict_def to_dict_def get_def coord_arg_json_of_coord Vehiculo_init_def
      vehiculo_ok_def)

lemma those_from_dict_to_dict:
  "\<forall>v \<in> set vs. vehiculo_ok v \<Longrightarrow> those (map (from_dict now \<circ> to_dict) vs) = Some vs"
  by (induction vs) (simp_all add: from_dict_to_dict)

lemma int_items_cupos: "int_items (map (\<lambda>(k, c). (k, JInt c)) cs) = Some cs"
  by (induction cs) auto

lemma cargar_guardar:
  assumes "\<forall>v \<in> set (vehiculos st). vehiculo_ok v"
  shows "cargar_datos now (st0\<lparr>archivo_json := archivo_json (guardar_datos st)\<rparr>)
           = st0\<lparr>archivo_json := Some (payload st), cupos := cupos st, vehiculos := vehiculos st,
                 historial := historial st\<rparr>"
  using assms
  by (simp add: cargar_datos_def guardar_datos_def payload_def cargar_cupos_def
      cargar_vehiculos_def get_def int_items_cupos those_from_dict_to_dict Let_def)

text \<open>
  Every session of a ledger is such an object: the ones a data file gives, the ones an
  entry adds when the caller built them with the constructor, the ones an exit leaves.
\<close>

lemma frecuente_lower: "lower ''frecuente'' = ''frecuente''"
  by code_simp

lemma vehiculo_ok_entrada:
  assumes "registrar_entrada veh st = Inr (r, st')"
      and "vehiculo_ok veh" and "\<forall>v \<in> set (vehiculos st). vehiculo_ok v"
  shows "\<forall>v \<in> set (vehiculos st'). vehiculo_ok v"
  using registrar_entrada_cases[OF assms(1)] assms(2,3)
  by (auto simp: vehiculo_ok_def frecuente_lower)

lemma vehiculo_ok_salida:
  assumes "registrar_salida now p st = Inr (r, st')"
      and "\<forall>v \<in> set (vehiculos st). vehiculo_ok v"
  shows "\<forall>v \<in> set (vehiculos st'). vehiculo_ok v"
proof (cases r)
  case None
  with assms(1) have "salida_loop now (upper p) (vehiculos st) st = Inr (None, st')"
    by (simp add: registrar_salida_def)
  from salida_loop_cases[OF this] have "st' = st" by auto
  with assms(2) show ?thesis by simp
next
  case (Some reg)
  with assms(1) have "registrar_salida now p st = Inr (Some reg, st')" by simp
  then obtain pre v post e where h: "vehiculos st = pre @ v # post"
    "\<forall>u \<in> set pre. placa u \<noteq> upper p" "placa v = upper p" "st' = salida_de now e v st"
    by (rule registrar_salida_Some)
  from h(2,3) have "\<forall>u \<in> set pre. placa u \<noteq> placa v" by simp
  from vehiculos_salida_de[OF h(1) this] h(4) have "vehiculos st' = pre @ post" by simp
  with assms(2) h(1) show ?thesis by simp
qed

lemma those_from_dict_ok:
  "those (map (from_dict now) ds) = Some vs \<Longrightarrow> \<forall>v \<in> set vs. vehiculo_ok v"
proof (induction ds arbitrary: vs)
  case Nil
  then show ?case by simp
next
  case (Cons d ds)
  from Cons.prems obtain v ws where v: "from_dict now d = Some v"
    and ws: "those (map (from_dict now) ds) = Some ws" and vs: "vs = v # ws"
    by (auto split: option.splits)
  from v have "vehiculo_ok v"
    by (auto simp: from_dict_def Vehiculo_init_ok split: json.splits option.splits)
  with Cons.IH[OF ws] vs show ?case by simp
qed

lemma vehiculo_ok_cargar:
  assumes "\<forall>v \<in> set (vehiculos st). vehiculo_ok v"
  shows "\<forall>v \<in> set (vehiculos (cargar_datos now st)). vehiculo_ok v"
proof -
  have c: "cargar_vehiculos now data = Some vs \<Longrightarrow> \<forall>v \<in> set vs. vehiculo_ok v" for data vs
    by (auto simp: cargar_vehiculos_def split: json.splits if_splits dest: those_from_dict_ok)
  show ?thesis
    using assms
    by (auto simp: cargar_datos_def Let_def split: option.splits json.splits dest: c)
qed

lemma vehiculo_ok_init: "\<forall>v \<in> set (vehiculos (Parqueadero_init now cfg file)). vehiculo_ok v"
  unfolding Parqueadero_init_def by (rule vehiculo_ok_cargar) simp

text \<open>
  C7. A ledger built on the data file that \<open>guardar_datos\<close> wrote (whatever
  capacities it is configured with) has the capacities, the active sessions and the
  history of the state that was saved, coordinates and entry and exit times (kept as
  the strings they are) included. The sessions are objects made by the constructor:
  upper-case plate, lower-case type and tier, an entry time that is not empty.
\<close>

theorem cargar_tras_guardar:
  assumes "\<forall>v \<in> set (vehiculos st). vehiculo_ok v"
  shows "cupos (Parqueadero_init now cfg (archivo_json (guardar_datos st))) = cupos st \<and>
         vehiculos (Parqueadero_init now cfg (archivo_json (guardar_datos st))) = vehiculos st \<and>
         historial (Parqueadero_init now cfg (archivo_json (guardar_datos st))) = historial st"
proof -
  let ?st0 = "\<lparr>cupos = cfg, archivo_json = None, vehiculos = [], historial = [],
      operador_actual = None\<rparr>"
  have "Parqueadero_init now cfg (archivo_json (guardar_datos st))
          = cargar_datos now (?st0\<lparr>archivo_json := archivo_json (guardar_datos st)\<rparr>)"
    by (simp add: Parqueadero_init_def)
  with cargar_guardar[OF assms, of now ?st0] show ?thesis by simp
qed

theorem cargar_tras_guardar_witness:
  "list_all vehiculo_ok (vehiculos ejemplo_con_historial) \<and>
   length (vehiculos ejemplo_con_historial) = 1 \<and> length (historial ejemplo_con_historial) = 1 \<and>
   cupos (Parqueadero_init ejemplo_dia_siguiente [] (archivo_json (guardar_datos ejemplo_con_historial)))
     = cupos ejemplo_con_historial \<and>
   vehiculos (Parqueadero_init ejemplo_dia_siguiente [] (archivo_json (guardar_datos ejemplo_con_historial)))
     = vehiculos ejemplo_con_historial \<and>
   historial (Parqueadero_init ejemplo_dia_siguiente [] (archivo_json (guardar_datos ejemplo_con_historial)))
     = historial ejemplo_con_historial"
proof -
  have l: "list_all vehiculo_ok (vehiculos ejemplo_con_historial)" by code_simp
  then have h: "\<forall>v \<in> set (vehiculos ejemplo_con_historial). vehiculo_ok v"
    by (simp add: list_all_iff)
  have n: "length (vehiculos ejemplo_con_historial) = 1" "length (historial ejemplo_con_historial) = 1"
    by code_simp+
  from l n cargar_tras_guardar[OF h, of ejemplo_dia_siguiente "[]"] show ?thesis by simp
qed

section \<open>Alerts\<close>

lemma alertas_vehiculos_eq:
  "\<forall>v \<in> set vs. strptime (hora_entrada v) \<noteq> None \<Longrightarrow>
   alertas_vehiculos now vs acc
     = Inr (acc @ map (\<lambda>v. Mas24Horas (placa v)) (filter (mas_de_24_horas now) vs))"
  by (induction vs arbitrary: acc) (auto simp: mas_de_24_horas_def)

lemma alertas_cupos_eq:
  "alertas_cupos cs acc = acc @ map SoloQuedaUnCupo (map fst (filter (\<lambda>(t, c). c = 1) cs))"
  by (induction cs arbitrary: acc) auto

lemma count_un_cupo:
  fixes cs :: "(string \<times> int) list"
  shows "distinct (map fst cs) \<Longrightarrow>
   count_list (map SoloQuedaUnCupo (map fst (filter (\<lambda>(t, c). c = 1) cs))) (SoloQuedaUnCupo t)
     = (if get cs t 0 = 1 then 1 else 0)"
proof (induction cs)
  case Nil
  then show ?case by (simp add: get_def)
next
  case (Cons a cs)
  obtain k c where a: "a = (k, c)" by (cases a)
  from Cons.prems a have k: "k \<notin> fst ` set cs" and d: "distinct (map fst cs)" by auto
  show ?case
  proof (cases "t = k")
    case True
    with k have "SoloQuedaUnCupo t \<notin> set (map SoloQuedaUnCupo (map fst (filter (\<lambda>(t, c). c = 1) cs)))"
      by auto
    then have "count_list (map SoloQuedaUnCupo (map fst (filter (\<lambda>(t, c). c = 1) cs))) (SoloQuedaUnCupo t) = 0"
      by (rule count_notin)
    with True a show ?thesis by (simp add: get_def)
  next
    case False
    with a Cons.IH[OF d] show ?thesis by (simp add: get_def)
  qed
qed

lemma count_mas_24:
  "count_list (map (\<lambda>v. Mas24Horas (placa v)) (filter (mas_de_24_horas now) vs)) (Mas24Horas q)
     = length (filter (\<lambda>v. placa v = q \<and> mas_de_24_horas now v) vs)"
  by (induction vs) auto

lemma count_otras:
  "count_list (map SoloQuedaUnCupo ts) (Mas24Horas q) = 0"
  "count_list (map (\<lambda>v. Mas24Horas (placa v)) vs) (SoloQuedaUnCupo t) = 0"
  by (induction ts, simp_all) (induction vs, simp_all)

text \<open>
  The two hypotheses of the statement below hold along the life of a ledger: entries and
  exits keep the keys of the capacities distinct, and they bring no entry time among the
  active sessions but the one of the vehicle that enters.
\<close>

lemma distinct_cupos_entrada:
  assumes "registrar_entrada veh st = Inr (r, st')" and "distinct (map fst (cupos st))"
  shows "distinct (map fst (cupos st'))"
  using registrar_entrada_cases[OF assms(1)] assms(2)
  by (auto simp: distinct_update)

lemma distinct_cupos_salida:
  assumes "registrar_salida now p st = Inr (r, st')" and "distinct (map fst (cupos st))"
  shows "distinct (map fst (cupos st'))"
proof (cases r)
  case None
  with assms(1) have "salida_loop now (upper p) (vehiculos st) st = Inr (None, st')"
    by (simp add: registrar_salida_def)
  from salida_loop_cases[OF this] have "st' = st" by auto
  with assms(2) show ?thesis by simp
next
  case (Some reg)
  with assms(1) have "registrar_salida now p st = Inr (Some reg, st')" by simp
  then obtain pre v post e where "st' = salida_de now e v st"
    by (rule registrar_salida_Some)
  with assms(2) show ?thesis
    by (simp add: salida_de_def guardar_datos_def distinct_update)
qed

lemma distinct_cupos_reachable:
  assumes "reachable st0 st" and "distinct (map fst (cupos st0))"
  shows "distinct (map fst (cupos st))"
  using assms
proof (induction rule: reachable.induct)
  case reach_init
  then show ?case by simp
next
  case (reach_login st operador_name)
  then show ?case by (simp add: login_def)
next
  case (reach_entrada st veh r st')
  then show ?case by (simp add: distinct_cupos_entrada)
next
  case (reach_salida st now' p r st')
  then show ?case by (simp add: distinct_cupos_salida)
qed

lemma hora_entrada_entrada:
  assumes "registrar_entrada veh st = Inr (r, st')"
  shows "set (map hora_entrada (vehiculos st'))
           \<subseteq> insert (hora_entrada veh) (set (map hora_entrada (vehiculos st)))"
  using registrar_entrada_cases[OF assms] by auto

lemma hora_entrada_salida:
  assumes "registrar_salida now p st = Inr (r, st')"
  shows "set (map hora_entrada (vehiculos st')) \<subseteq> set (map hora_entrada (vehiculos st))"
proof (cases r)
  case None
  with assms have "salida_loop now (upper p) (vehiculos st) st = Inr (None, st')"
    by (simp add: registrar_salida_def)
  from salida_loop_cases[OF this] have "st' = st" by auto
  then show ?thesis by simp
next
  case (Some reg)
  with assms have "registrar_salida now p st = Inr (Some reg, st')" by simp
  then obtain pre v post e where h: "vehiculos st = pre @ v # post"
    "\<forall>u \<in> set pre. placa u \<noteq> upper p" "placa v = upper p" "st' = salida_de now e v st"
    by (rule registrar_salida_Some)
  from h(2,3) have "\<forall>u \<in> set pre. placa u \<noteq> placa v" by simp
  from vehiculos_salida_de[OF h(1) this] h(4) have "vehiculos st' = pre @ post" by simp
  with h(1) show ?thesis by auto
qed

text \<open>
  C8, as the code has it. When every entry time reads as a time and the keys of the
  capacities are distinct (as the keys of a dict are), \<open>alertas\<close> returns, and the
  state is the state before the call: first one alert for each active session with more
  than 24 hours since its entry, in the order of the sessions, then one alert for each
  type with exactly 1 slot left, in the order of the types, and nothing else. So a plate
  has as many overstay alerts as it has such sessions, and a type has one low-capacity
  alert when its capacity is 1 and none otherwise.
\<close>

theorem alertas_exactas:
  assumes "\<forall>v \<in> set (vehiculos st). strptime (hora_entrada v) \<noteq> None"
      and "distinct (map fst (cupos st))"
  shows "\<exists>alerts. alertas now st = Inr (alerts, st) \<and>
           alerts = map (\<lambda>v. Mas24Horas (placa v)) (filter (mas_de_24_horas now) (vehiculos st))
                    @ map SoloQuedaUnCupo (map fst (filter (\<lambda>(t, c). c = 1) (cupos st))) \<and>
           (\<forall>q. count_list alerts (Mas24Horas q)
                  = length (filter (\<lambda>v. placa v = q \<and> mas_de_24_horas now v) (vehiculos st))) \<and>
           (\<forall>t. count_list alerts (SoloQuedaUnCupo t) = (if get (cupos st) t 0 = 1 then 1 else 0))"
proof -
  let ?a = "map (\<lambda>v. Mas24Horas (placa v)) (filter (mas_de_24_horas now) (vehiculos st))"
  let ?b = "map SoloQuedaUnCupo (map fst (filter (\<lambda>(t, c). c = 1) (cupos st)))"
  have r: "alertas now st = Inr (?a @ ?b, st)"
    by (simp add: alertas_def alertas_vehiculos_eq[OF assms(1)] alertas_cupos_eq)
  have c1: "\<forall>q. count_list (?a @ ?b) (Mas24Horas q)
                  = length (filter (\<lambda>v. placa v = q \<and> mas_de_24_horas now v) (vehiculos st))"
    by (simp add: count_mas_24 count_otras del: map_map)
  have c2: "\<forall>t. count_list (?a @ ?b) (SoloQuedaUnCupo t) = (if get (cupos st) t 0 = 1 then 1 else 0)"
    by (simp add: count_un_cupo[OF assms(2)] count_otras del: map_map)
  from r c1 c2 show ?thesis by blast
qed

theorem alertas_exactas_witness:
  "list_all (\<lambda>v. strptime (hora_entrada v) \<noteq> None) (vehiculos ejemplo_carro_y_moto) \<and>
   distinct (map fst (cupos ejemplo_carro_y_moto)) \<and>
   cupos ejemplo_carro_y_moto = [(''carro'', 1), (''moto'', 0), (''bici'', 0)] \<and>
   alertas ejemplo_dia_siguiente ejemplo_carro_y_moto
     = Inr ([Mas24Horas ''ABC123'', Mas24Horas ''XYZ99'', SoloQuedaUnCupo ''carro''],
            ejemplo_carro_y_moto)"
proof -
  have l: "list_all (\<lambda>v. strptime (hora_entrada v) \<noteq> None) (vehiculos ejemplo_carro_y_moto)"
    by code_simp
  then have h: "\<forall>v \<in> set (vehiculos ejemplo_carro_y_moto). strptime (hora_entrada v) \<noteq> None"
    by (simp add: list_all_iff)
  have c: "cupos ejemplo_carro_y_moto = [(''carro'', 1), (''moto'', 0), (''bici'', 0)]"
    by code_simp
  have d: "distinct (map fst (cupos ejemplo_carro_y_moto))" unfolding c by simp
  have a: "map (\<lambda>v. Mas24Horas (placa v))
             (filter (mas_de_24_horas ejemplo_dia_siguiente) (vehiculos ejemplo_carro_y_moto))
           @ map SoloQuedaUnCupo (map fst (filter (\<lambda>(t, c). c = 1) (cupos ejemplo_carro_y_moto)))
           = [Mas24Horas ''ABC123'', Mas24Horas ''XYZ99'', SoloQuedaUnCupo ''carro'']"
    by code_simp
  from alertas_exactas[OF h d, of ejemplo_dia_siguiente] a
  have "alertas ejemplo_dia_siguiente ejemplo_carro_y_moto
     = Inr ([Mas24Horas ''ABC123'', Mas24Horas ''XYZ99'', SoloQuedaUnCupo ''carro''],
            ejemplo_carro_y_moto)"
    by auto
  with l d c show ?thesis by simp
qed

text \<open>
  When the entry time of an active session does not read as a time, \<open>strptime\<close>
  raises and \<open>alertas\<close> returns no alert at all.
\<close>

lemma alertas_hora_ilegible:
  assumes "\<exists>v \<in> set (vehiculos st). strptime (hora_entrada v) = None"
  shows "alertas now st = Inl ValueError"
proof -
  have "alertas_vehiculos now vs acc = Inl ValueError"
    if "\<exists>v \<in> set vs. strptime (hora_entrada v) = None" for vs acc
    using that by (induction vs arbitrary: acc) (auto split: option.splits)
  with assms show ?thesis by (simp add: alertas_def)
qed

text \<open>
  The claim C8 as it is written fails: a car is parked with the entry time "ayer" that
  its caller gave, one slot is left for cars, and \<open>alertas\<close> raises ValueError
  instead of returning the low-capacity alert.
\<close>

theorem un_cupo_sin_alerta:
  "reachable (Parqueadero_init ejemplo_t0 ejemplo_cfg None) ejemplo_un_carro_hora_mala \<and>
   map hora_entrada (vehiculos ejemplo_un_carro_hora_mala) = [''ayer''] \<and>
   get (cupos ejemplo_un_carro_hora_mala) ''carro'' 0 = 1 \<and>
   alertas ejemplo_dia_siguiente ejemplo_un_carro_hora_mala = Inl ValueError"
proof -
  have r: "reachable (Parqueadero_init ejemplo_t0 ejemplo_cfg None) ejemplo_un_carro_hora_mala"
    unfolding ejemplo_un_carro_hora_mala_def ejemplo_inicial_def
    by (rule reachable_fold) (rule reach_init)
  have h: "map hora_entrada (vehiculos ejemplo_un_carro_hora_mala) = [''ayer'']" by code_simp
  have c: "get (cupos ejemplo_un_carro_hora_mala) ''carro'' 0 = 1" by code_simp
  have a: "alertas ejemplo_dia_siguiente ejemplo_un_carro_hora_mala = Inl ValueError"
    by code_simp
  from r h c a show ?thesis by blast
qed

section \<open>Plates of the active sessions\<close>

lemma placas_entrada:
  assumes "registrar_entrada veh st = Inr (r, st')"
  shows "map placa (vehiculos st') = map placa (vehiculos st) \<or>
         map placa (vehiculos st') = map placa (vehiculos st) @ [placa veh]"
  using registrar_entrada_cases[OF assms] by auto

lemma distinct_salida:
  assumes "registrar_salida now p st = Inr (r, st')" and "distinct (map placa (vehiculos st))"
  shows "distinct (map placa (vehiculos st'))"
proof (cases r)
  case None
  with assms(1) have "salida_loop now (upper p) (vehiculos st) st = Inr (None, st')"
    by (simp add: registrar_salida_def)
  from salida_loop_cases[OF this] have "st' = st" by auto
  with assms(2) show ?thesis by simp
next
  case (Some reg)
  with assms(1) have "registrar_salida now p st = Inr (Some reg, st')" by simp
  then obtain pre v post e where h: "vehiculos st = pre @ v # post"
    "\<forall>u \<in> set pre. placa u \<noteq> upper p" "placa v = upper p" "st' = salida_de now e v st"
    by (rule registrar_salida_Some)
  from h(2,3) have "\<forall>u \<in> set pre. placa u \<noteq> placa v" by simp
  from vehiculos_salida_de[OF h(1) this] h(4) have "vehiculos st' = pre @ post" by simp
  with assms(2) h(1) show ?thesis by simp
qed

text \<open>
  C9, as the code has it. \<open>registrar_entrada\<close> does not look at the plates of
  the active sessions. When no entry is registered for a plate that is already active,
  the plates of the active sessions are distinct in every state reached from a ledger
  built with no data file.
\<close>

theorem placas_distintas_sin_repetir:
  assumes "reachable_nuevas (Parqueadero_init now cfg None) st"
  shows "distinct (map placa (vehiculos st))"
  using assms
proof (induction rule: reachable_nuevas.induct)
  case nuevas_init
  show ?case by (simp add: Parqueadero_init_def cargar_datos_def)
next
  case (nuevas_login st operador_name)
  then show ?case by (simp add: login_def)
next
  case (nuevas_entrada st veh r st')
  from placas_entrada[OF nuevas_entrada.hyps(3)] nuevas_entrada.hyps(2) nuevas_entrada.IH
  show ?case by auto
next
  case (nuevas_salida st now' p r st')
  from distinct_salida[OF nuevas_salida.hyps(2) nuevas_salida.IH] show ?case .
qed

theorem placas_distintas_sin_repetir_witness:
  "reachable_nuevas (Parqueadero_init ejemplo_t0 ejemplo_cfg None) ejemplo_carro_y_moto \<and>
   map placa (vehiculos ejemplo_carro_y_moto) = [''ABC123'', ''XYZ99''] \<and>
   distinct (map placa (vehiculos ejemplo_carro_y_moto))"
proof -
  let ?s1 = "ejecutar (Login ''ana'') ejemplo_inicial"
  let ?s2 = "ejecutar (Entrada ejemplo_carro) ?s1"
  have r0: "reachable_nuevas ejemplo_inicial ejemplo_inicial" by (rule nuevas_init)
  have r1: "reachable_nuevas ejemplo_inicial ?s1"
    by (rule reachable_nuevas_ejecutar[OF r0]) simp
  have f1: "placa ejemplo_carro \<notin> set (map placa (vehiculos ?s1))" by code_simp
  have r2: "reachable_nuevas ejemplo_inicial ?s2"
    by (rule reachable_nuevas_ejecutar[OF r1]) (use f1 in \<open>simp del: ejecutar.simps\<close>)
  have f2: "placa ejemplo_moto \<notin> set (map placa (vehiculos ?s2))" by code_simp
  have r3: "reachable_nuevas ejemplo_inicial (ejecutar (Entrada ejemplo_moto) ?s2)"
    by (rule reachable_nuevas_ejecutar[OF r2]) (use f2 in \<open>simp del: ejecutar.simps\<close>)
  then have r: "reachable_nuevas (Parqueadero_init ejemplo_t0 ejemplo_cfg None) ejemplo_carro_y_moto"
    by (simp add: ejemplo_carro_y_moto_def ejemplo_inicial_def)
  have m: "map placa (vehiculos ejemplo_carro_y_moto) = [''ABC123'', ''XYZ99'']" by code_simp
  from r m placas_distintas_sin_repetir[OF r] show ?thesis by simp
qed

text \<open>
  The claim C9 as it is written fails: two entries with the plate ABC123, ten minutes
  apart, are both accepted, and both sessions are active.
\<close>

theorem placa_repetida_activa:
  "reachable (Parqueadero_init ejemplo_t0 ejemplo_cfg None) ejemplo_repetida \<and>
   map placa (vehiculos ejemplo_repetida) = [''ABC123'', ''ABC123''] \<and>
   \<not> distinct (map placa (vehiculos ejemplo_repetida))"
proof -
  have r: "reachable (Parqueadero_init ejemplo_t0 ejemplo_cfg None) ejemplo_repetida"
    unfolding ejemplo_repetida_def ejemplo_inicial_def by (rule reachable_fold) (rule reach_init)
  have m: "map placa (vehiculos ejemplo_repetida) = [''ABC123'', ''ABC123'']" by code_simp
  from r m show ?thesis by simp
qed

section \<open>Entry times written by the program\<close>

text \<open>
  \<open>strptime\<close> reads back what \<open>strftime\<close> writes, without the microseconds.
  So the entry time of a vehicle built by the constructor with no entry time given, as
  the menu builds it, reads as the time of the clock.
\<close>

lemma digit_val_digit_char: "digit_val (digit_char d) = Some (d mod 10)"
proof -
  have "0 \<le> d mod 10" "d mod 10 < 10" by simp_all
  then have "(48 + d mod 10) mod 256 = 48 + d mod 10" by simp
  then have "(of_char (digit_char d) :: int) = 48 + d mod 10"
    by (simp add: digit_char_def)
  then show ?thesis by (simp add: digit_val_def)
qed

lemma number_2_digits:
  assumes "0 \<le> n" "n < 100"
  shows "number [digit_char (n div 10), digit_char n] = Some n"
proof -
  from assms have "n div 10 mod 10 = n div 10" by simp
  then show ?thesis by (simp add: number_def digit_val_digit_char)
qed

lemma number_4_digits:
  assumes "0 \<le> n" "n < 10000"
  shows "number [digit_char (n div 1000), digit_char (n div 100), digit_char (n div 10), digit_char n]
           = Some n"
proof -
  define q1 where "q1 = n div 10"
  define q2 where "q2 = q1 div 10"
  define q3 where "q3 = q2 div 10"
  have d2: "n div 100 = q2" unfolding q2_def q1_def by (simp add: zdiv_zmult2_eq)
  have d3: "n div 1000 = q3" unfolding q3_def q2_def q1_def by (simp add: zdiv_zmult2_eq)
  from assms d3 have "0 \<le> q3" "q3 < 10" by simp_all
  then have m3: "q3 mod 10 = q3" by simp
  have e1: "q1 * 10 + n mod 10 = n" unfolding q1_def by simp
  have e2: "q2 * 10 + q1 mod 10 = q1" unfolding q2_def by simp
  have e3: "q3 * 10 + q2 mod 10 = q2" unfolding q3_def by simp
  have "number [digit_char q3, digit_char q2, digit_char q1, digit_char n]
          = Some (((q3 mod 10 * 10 + q2 mod 10) * 10 + q1 mod 10) * 10 + n mod 10)"
    by (simp add: number_def digit_val_digit_char)
  also have "\<dots> = Some n" by (simp only: m3 e3 e2 e1)
  finally show ?thesis by (simp only: d2 d3 q1_def[symmetric])
qed

lemma days_in_month_le: "days_in_month y m \<le> 31"
  by (simp add: days_in_month_def)

lemma strptime_strftime:
  assumes "valid_datetime d"
  shows "strptime (strftime d) = Some (d\<lparr>microsecond := 0\<rparr>)"
proof -
  from assms have y: "0 \<le> year d" "year d < 10000" and mo: "0 \<le> month d" "month d < 100"
    and da: "0 \<le> day d" "day d < 100" and h: "0 \<le> hour d" "hour d < 100"
    and mi: "0 \<le> minute d" "minute d < 100" and s: "0 \<le> second d" "second d < 100"
    using days_in_month_le[of "year d" "month d"]
    by (auto simp: valid_datetime_def)
  have v: "valid_datetime \<lparr>year = year d, month = month d, day = day d, hour = hour d,
      minute = minute d, second = second d, microsecond = 0\<rparr>"
    using assms by (simp add: valid_datetime_def)
  show ?thesis
    using v
    by (simp add: strptime_def strftime_def pad2_def pad4_def
        number_2_digits[OF mo] number_2_digits[OF da] number_2_digits[OF h]
        number_2_digits[OF mi] number_2_digits[OF s] number_4_digits[OF y])
qed

lemma Vehiculo_init_hora_entrada:
  "valid_datetime now \<Longrightarrow>
   strptime (hora_entrada (Vehiculo_init now p t None c n la lo)) = Some (now\<lparr>microsecond := 0\<rparr>)"
  by (simp add: Vehiculo_init_def strptime_strftime)

end
